theory Spec2Isabelle
  imports Complex_Main
begin

section \<open>Python string operations used by \<^verbatim>\<open>main.py\<close>\<close>

text \<open>
  A Python \<^verbatim>\<open>str\<close> is modelled as a HOL \<^typ>\<open>string\<close>. The characters the program
  itself tests for (the nine forbidden characters, the space, the dot, the slash, the
  letters and digits of the reserved device names) are all ASCII; \<open>upper\<close> maps the ASCII
  letters \<open>a\<close>..\<open>z\<close> to \<open>A\<close>..\<open>Z\<close> and leaves every other character as it is.
  (\<^verbatim>\<open>str.upper\<close> also maps letters beyond ASCII, but none of them to letters that occur
  in a reserved device name, so the test against these names comes out the same.)
\<close>

text \<open>\<^verbatim>\<open>s.replace(old, new)\<close> for a one-character \<open>old\<close>: every occurrence is replaced.\<close>

definition replace :: "char \<Rightarrow> string \<Rightarrow> string \<Rightarrow> string" where
  "replace old new s = concat (map (\<lambda>c. if c = old then new else [c]) s)"

definition upper_char :: "char \<Rightarrow> char" where
  "upper_char c =
     (case map_of (zip ''abcdefghijklmnopqrstuvwxyz'' ''ABCDEFGHIJKLMNOPQRSTUVWXYZ'') c of
        Some u \<Rightarrow> u
      | None \<Rightarrow> c)"

definition upper :: "string \<Rightarrow> string" where
  "upper s = map upper_char s"

text \<open>\<^verbatim>\<open>s.startswith(p)\<close>.\<close>

definition startswith :: "string \<Rightarrow> string \<Rightarrow> bool" where
  "startswith s p = (take (length p) s = p)"

text \<open>\<^verbatim>\<open>s.endswith(p)\<close>.\<close>

definition endswith :: "string \<Rightarrow> string \<Rightarrow> bool" where
  "endswith s p = (length p \<le> length s \<and> drop (length s - length p) s = p)"


section \<open>\<^verbatim>\<open>clean_folder_name\<close>\<close>

definition invalid_chars :: string where
  "invalid_chars = [CHR ''<'', CHR ''>'', CHR '':'', CHR 0x22, CHR ''/'', CHR 0x5C,
                    CHR ''|'', CHR ''?'', CHR ''*'']"

definition reserved_names :: "string list" where
  "reserved_names =
     [''CON'', ''PRN'', ''AUX'', ''NUL'',
      ''COM1'', ''COM2'', ''COM3'', ''COM4'', ''COM5'', ''COM6'', ''COM7'', ''COM8'', ''COM9'',
      ''LPT1'', ''LPT2'', ''LPT3'', ''LPT4'', ''LPT5'', ''LPT6'', ''LPT7'', ''LPT8'', ''LPT9'']"

text \<open>The first loop of the function: each forbidden character in turn is deleted.\<close>

definition remove_invalid :: "string \<Rightarrow> string" where
  "remove_invalid name = fold (\<lambda>char name. replace char [] name) invalid_chars name"

text \<open>The name after the removal loop and the optional replacement of spaces.\<close>

definition cleaned_body :: "string \<Rightarrow> bool \<Rightarrow> string \<Rightarrow> string" where
  "cleaned_body name replace_space space_replacement =
     (let name = remove_invalid name
      in if replace_space then replace CHR '' '' space_replacement name else name)"

definition clean_folder_name :: "string \<Rightarrow> bool \<Rightarrow> string \<Rightarrow> string" where
  "clean_folder_name name replace_space space_replacement =
     (let name = cleaned_body name replace_space space_replacement
      in if upper name \<in> set reserved_names \<or> startswith name ''.''
         then ''_'' @ name
         else name)"

text \<open>The call \<^verbatim>\<open>clean_folder_name(name)\<close> with the default arguments.\<close>

definition clean_folder_name_default :: "string \<Rightarrow> string" where
  "clean_folder_name_default name = clean_folder_name name True ''_''"

section \<open>Values of the parsed response, and the target path of an issue\<close>

text \<open>
  The scalar values \<^verbatim>\<open>response.json()\<close> can put under a key: \<^verbatim>\<open>None\<close>, a \<^verbatim>\<open>bool\<close>,
  an \<^verbatim>\<open>int\<close> or a \<^verbatim>\<open>str\<close>. \<open>py_str\<close> is what \<^verbatim>\<open>str(v)\<close> and an f-string
  field \<^verbatim>\<open>{v}\<close> produce for such a value.
\<close>

datatype jval = JNull | JBool bool | JInt int | JStr string

text \<open>The decimal digits of a natural number, as \<^verbatim>\<open>str\<close> writes them.\<close>

fun str_nat :: "nat \<Rightarrow> string" where
  "str_nat n =
     (if n < 10 then [''0123456789'' ! n]
      else str_nat (n div 10) @ [''0123456789'' ! (n mod 10)])"

declare str_nat.simps [simp del]

definition str_int :: "int \<Rightarrow> string" where
  "str_int i = (if i < 0 then ''-'' @ str_nat (nat (- i)) else str_nat (nat i))"

fun py_str :: "jval \<Rightarrow> string" where
  "py_str JNull = ''None''"
| "py_str (JBool b) = (if b then ''True'' else ''False'')"
| "py_str (JInt i) = str_int i"
| "py_str (JStr s) = s"

text \<open>
  \<^verbatim>\<open>s.zfill(width)\<close>: a string already \<open>width\<close> long is returned as it is; otherwise
  zeros are inserted on the left, after a leading sign character if there is one.
\<close>

definition zfill :: "string \<Rightarrow> nat \<Rightarrow> string" where
  "zfill s width =
     (if width \<le> length s then s
      else let fill = replicate (width - length s) CHR ''0''
           in case s of
                [] \<Rightarrow> fill
              | c # rest \<Rightarrow> if c = CHR ''+'' \<or> c = CHR ''-'' then c # fill @ rest else fill @ s)"

text \<open>
  \<^verbatim>\<open>os.path.join(a, b)\<close> of \<^verbatim>\<open>posixpath\<close>: a second component that begins with the
  separator is absolute and replaces the first; otherwise the two are joined with one
  separator, which is left out when the first is empty or already ends in one.
\<close>

definition os_path_join :: "string \<Rightarrow> string \<Rightarrow> string" where
  "os_path_join a b =
     (if startswith b ''/'' then b
      else if a = [] \<or> endswith a ''/'' then a @ b
      else a @ ''/'' @ b)"

definition ID_PAD_LENGTH :: nat where
  "ID_PAD_LENGTH = 3"

text \<open>
  The path \<^verbatim>\<open>get_issues\<close> derives for an issue from \<^verbatim>\<open>issue["project"]["shortName"]\<close>,
  \<^verbatim>\<open>issue["numberInProject"]\<close> and \<^verbatim>\<open>issue["summary"]\<close>.
\<close>

definition issue_target_path :: "jval \<Rightarrow> jval \<Rightarrow> string \<Rightarrow> string" where
  "issue_target_path project_short_name issue_number_in_project issue_summary =
     os_path_join ''exports''
       (py_str project_short_name @ ''-''
        @ zfill (py_str issue_number_in_project) ID_PAD_LENGTH @ ''-''
        @ clean_folder_name_default issue_summary)"

section \<open>The time stamp of a comment\<close>

text \<open>
  The exceptions the program can end with; none is caught anywhere in \<^verbatim>\<open>main.py\<close>. The
  four after \<open>ValueError\<close> are the subclasses of \<^verbatim>\<open>OSError\<close> that the file operations
  raise; \<open>RequestException\<close> stands for every exception of \<^verbatim>\<open>requests\<close>.
\<close>

datatype fault =
    KeyError | TypeError | AttributeError | ValueError
  | FileExistsError | FileNotFoundError | NotADirectoryError | IsADirectoryError
  | RequestException

text \<open>
  \<^verbatim>\<open>comment["created"] / 1000\<close> is a true division. Its quotient is modelled as the exact
  rational number; \<open>modf\<close> and \<open>py_round\<close> are \<^verbatim>\<open>math.modf\<close> (both parts carry the sign
  of the argument) and \<^verbatim>\<open>round\<close> (halves go to the even neighbour), with which
  \<^verbatim>\<open>datetime.fromtimestamp\<close> splits a time stamp into seconds and microseconds. (The
  program divides in double precision; for a count of milliseconds in the range of
  \<^verbatim>\<open>datetime\<close> the double is off by microseconds at most, which moves no time stamp
  across a second.)
\<close>

definition modf :: "rat \<Rightarrow> rat \<times> int" where
  "modf t = (let ip = (if t < 0 then \<lceil>t\<rceil> else \<lfloor>t\<rfloor>) in (t - of_int ip, ip))"

definition py_round :: "rat \<Rightarrow> int" where
  "py_round x =
     (let f = \<lfloor>x\<rfloor>; d = x - of_int f
      in if d < 1 / 2 then f
         else if 1 / 2 < d then f + 1
         else if even f then f else f + 1)"

text \<open>
  The calendar of the \<^verbatim>\<open>datetime\<close> module: the proleptic Gregorian calendar, with days
  numbered from 1 on 1 January of year 1 (the ordinal).
\<close>

definition DAYS_IN_MONTH :: "int list" where
  "DAYS_IN_MONTH = [-1, 31, 28, 31, 30, 31, 30, 31, 31, 30, 31, 30, 31]"

definition DAYS_BEFORE_MONTH :: "int list" where
  "DAYS_BEFORE_MONTH = [-1, 0, 31, 59, 90, 120, 151, 181, 212, 243, 273, 304, 334]"

definition is_leap :: "int \<Rightarrow> bool" where
  "is_leap year = (year mod 4 = 0 \<and> (year mod 100 \<noteq> 0 \<or> year mod 400 = 0))"

definition days_before_year :: "int \<Rightarrow> int" where
  "days_before_year year = (let y = year - 1 in y * 365 + y div 4 - y div 100 + y div 400)"

definition days_in_month :: "int \<Rightarrow> int \<Rightarrow> int" where
  "days_in_month year month =
     (if month = 2 \<and> is_leap year then 29 else DAYS_IN_MONTH ! nat month)"

definition days_before_month :: "int \<Rightarrow> int \<Rightarrow> int" where
  "days_before_month year month =
     DAYS_BEFORE_MONTH ! nat month + (if month > 2 \<and> is_leap year then 1 else 0)"

text \<open>The ordinal of a date: the direction from the calendar to the day number.\<close>

definition ymd2ord :: "int \<Rightarrow> int \<Rightarrow> int \<Rightarrow> int" where
  "ymd2ord year month day = days_before_year year + days_before_month year month + day"

text \<open>
  The other direction, as \<^verbatim>\<open>_ord2ymd\<close> computes it: cycles of 400, 100, 4 and 1 years
  are taken off the day number, then the month is estimated from the day of the year and
  the estimate is corrected when it is one too large. \<open>month_and_day\<close> is the last part,
  for day \<open>n\<close> (from 0) of a year.
\<close>

definition month_and_day :: "int \<Rightarrow> bool \<Rightarrow> int \<times> int" where
  "month_and_day n leapyear =
     (let month = (n + 50) div 32;
          preceding = DAYS_BEFORE_MONTH ! nat month + (if month > 2 \<and> leapyear then 1 else 0)
      in if preceding > n
         then (let month' = month - 1;
                   preceding' = preceding
                     - (DAYS_IN_MONTH ! nat month' + (if month' = 2 \<and> leapyear then 1 else 0))
               in (month', n - preceding' + 1))
         else (month, n - preceding + 1))"

definition ord2ymd :: "int \<Rightarrow> int \<times> int \<times> int" where
  "ord2ymd ordinal =
     (let n = ordinal - 1;
          n400 = n div 146097; r400 = n mod 146097;
          n100 = r400 div 36524; r100 = r400 mod 36524;
          n4 = r100 div 1461; r4 = r100 mod 1461;
          n1 = r4 div 365; r1 = r4 mod 365;
          year = n400 * 400 + 1 + n100 * 100 + n4 * 4 + n1
      in if n1 = 4 \<or> n100 = 4 then (year - 1, 12, 31)
         else (let leapyear = (n1 = 3 \<and> (n4 \<noteq> 24 \<or> n100 = 3));
                   (month, day) = month_and_day r1 leapyear
               in (year, month, day)))"

record datetime =
  dt_year :: int
  dt_month :: int
  dt_day :: int
  dt_hour :: int
  dt_minute :: int
  dt_second :: int
  dt_microsecond :: int

definition MAXORDINAL :: int where
  "MAXORDINAL = 3652059"

text \<open>
  The datetime of \<open>secs\<close> seconds and \<open>us\<close> microseconds after the epoch: the seconds
  are broken down as \<^verbatim>\<open>gmtime\<close> does (day 719163 is 1 January 1970), and a year outside
  1..9999 is an error (\<open>ValueError\<close> here also stands for the \<^verbatim>\<open>OverflowError\<close> of a time
  stamp far outside that range).
\<close>

definition utc_datetime :: "int \<Rightarrow> int \<Rightarrow> fault + datetime" where
  "utc_datetime secs us =
     (let ordinal = secs div 86400 + 719163;
          rem = secs mod 86400
      in if ordinal < 1 \<or> MAXORDINAL < ordinal then Inl ValueError
         else (let (y, m, d) = ord2ymd ordinal
               in Inr \<lparr>dt_year = y, dt_month = m, dt_day = d,
                        dt_hour = rem div 3600, dt_minute = rem mod 3600 div 60,
                        dt_second = rem mod 60, dt_microsecond = us\<rparr>))"

text \<open>
  \<^verbatim>\<open>datetime.fromtimestamp(t, tz=timezone.utc)\<close>: the microseconds are rounded from the
  fractional part of \<open>t\<close> and carried into the seconds.
\<close>

definition fromtimestamp_utc :: "rat \<Rightarrow> fault + datetime" where
  "fromtimestamp_utc t =
     (let (fr, ip) = modf t;
          us = py_round (fr * 1000000);
          (secs, us) = (if us \<ge> 1000000 then (ip + 1, us - 1000000)
                        else if us < 0 then (ip - 1, us + 1000000)
                        else (ip, us))
      in utc_datetime secs us)"

text \<open>
  \<^verbatim>\<open>isoformat(timespec="seconds")\<close> of an aware UTC datetime: the fields zero-padded as
  \<^verbatim>\<open>%04d-%02d-%02dT%02d:%02d:%02d\<close>, the microseconds left out, and the offset
  \<^verbatim>\<open>+00:00\<close>.
\<close>

definition iso_fields :: "int \<Rightarrow> int \<Rightarrow> int \<Rightarrow> int \<Rightarrow> int \<Rightarrow> int \<Rightarrow> string" where
  "iso_fields y m d hh mm ss =
     zfill (str_int y) 4 @ ''-'' @ zfill (str_int m) 2 @ ''-'' @ zfill (str_int d) 2 @ ''T''
     @ zfill (str_int hh) 2 @ '':'' @ zfill (str_int mm) 2 @ '':'' @ zfill (str_int ss) 2
     @ ''+00:00''"

definition isoformat_seconds :: "datetime \<Rightarrow> string" where
  "isoformat_seconds dt =
     iso_fields (dt_year dt) (dt_month dt) (dt_day dt) (dt_hour dt) (dt_minute dt) (dt_second dt)"

text \<open>
  The two lines of \<^verbatim>\<open>get_issues\<close> that turn \<^verbatim>\<open>comment["created"]\<close> into the text of the
  section title. A \<^verbatim>\<open>bool\<close> divides as 0 or 1; \<^verbatim>\<open>None\<close> and a \<^verbatim>\<open>str\<close> cannot be divided.
\<close>

definition comment_timestamp :: "jval \<Rightarrow> fault + string" where
  "comment_timestamp created =
     (case created of
        JInt ms \<Rightarrow> map_sum id isoformat_seconds (fromtimestamp_utc (of_int ms / 1000))
      | JBool b \<Rightarrow> map_sum id isoformat_seconds (fromtimestamp_utc ((if b then 1 else 0) / 1000))
      | _ \<Rightarrow> Inl TypeError)"

section \<open>The issues of a response\<close>

text \<open>
  The objects of the parsed response, one field for each key the program reads. A field
  is \<open>None\<close> when the key is missing from the object, so that a subscript
  \<^verbatim>\<open>obj["key"]\<close> raises \<^verbatim>\<open>KeyError\<close> and \<^verbatim>\<open>obj.get("key", default)\<close> gives the default;
  \<open>Some JNull\<close> is a key that is there with the value \<^verbatim>\<open>null\<close>. The two-level
  subscripts \<^verbatim>\<open>["author"]["name"]\<close> and \<^verbatim>\<open>["project"]["shortName"]\<close> are one field each.
\<close>

record reaction =
  reaction_author_name :: "jval option"
  reaction_reaction :: "jval option"

record comment =
  comment_created :: "jval option"
  comment_author_name :: "jval option"
  comment_deleted :: "jval option"
  comment_text :: "jval option"
  comment_reactions :: "reaction list option"

record attachment =
  attachment_name :: "jval option"
  attachment_url :: "jval option"

record issue =
  idReadable :: "jval option"
  numberInProject :: "jval option"
  summary :: "jval option"
  description :: "jval option"
  project_shortName :: "jval option"
  comments :: "comment list option"
  attachments :: "attachment list option"

section \<open>The tracker, the file system and the console\<close>

text \<open>
  A request as \<^verbatim>\<open>requests.get\<close> sends it, and the part of a response the program reads.
  The tracker is a function from requests to responses, or to the exception that
  \<^verbatim>\<open>requests.get\<close> raises; \<open>resp_json\<close> is what \<^verbatim>\<open>response.json()\<close> returns or raises.
\<close>

record request =
  req_url :: string
  req_authorization :: string
  req_params :: "(string \<times> string) list"

record response =
  resp_status_code :: int
  resp_text :: string
  resp_content :: string
  resp_json :: "fault + issue list"

type_synonym tracker = "request \<Rightarrow> fault + response"

text \<open>
  The file system maps a POSIX path, as it is spelled, to a directory or to a file with
  its content; two spellings of one path are two keys. The root directory always exists,
  and a path without a slash lies in the current directory. The
  trace records, in order, what the program did to the outside: lines printed, requests
  sent, directories created and files written.
\<close>

datatype node = Dir | File string

datatype event = Printed string | Requested request | MadeDir string | Wrote string string

record world =
  files :: "string \<rightharpoonup> node"
  trace :: "event list"

definition emit :: "event \<Rightarrow> world \<Rightarrow> world" where
  "emit e w = w\<lparr>trace := trace w @ [e]\<rparr>"

definition all_slashes :: "string \<Rightarrow> bool" where
  "all_slashes p = list_all (\<lambda>c. c = CHR ''/'') p"

definition node_at :: "world \<Rightarrow> string \<Rightarrow> node option" where
  "node_at w p = (if p \<noteq> [] \<and> all_slashes p then Some Dir else files w p)"

text \<open>\<^verbatim>\<open>os.path.exists\<close> and \<^verbatim>\<open>os.path.isdir\<close>.\<close>

definition os_path_exists :: "world \<Rightarrow> string \<Rightarrow> bool" where
  "os_path_exists w p = (node_at w p \<noteq> None)"

definition os_path_isdir :: "world \<Rightarrow> string \<Rightarrow> bool" where
  "os_path_isdir w p = (node_at w p = Some Dir)"

text \<open>
  \<^verbatim>\<open>os.path.split\<close> of \<^verbatim>\<open>posixpath\<close>: the tail is what follows the last slash, the head
  what comes before it, without its trailing slashes unless it consists of slashes only.
\<close>

definition rstrip_slashes :: "string \<Rightarrow> string" where
  "rstrip_slashes s = rev (dropWhile (\<lambda>c. c = CHR ''/'') (rev s))"

definition os_path_split :: "string \<Rightarrow> string \<times> string" where
  "os_path_split p =
     (let tail = rev (takeWhile (\<lambda>c. c \<noteq> CHR ''/'') (rev p));
          head = take (length p - length tail) p
      in (if head \<noteq> [] \<and> \<not> all_slashes head then rstrip_slashes head else head, tail))"

text \<open>
  What the operating system checks before it creates an entry at \<open>name\<close>: the name is not
  empty, and the directory it lies in (the current directory for a name without a slash)
  exists and is a directory.
\<close>

definition parent_fault :: "world \<Rightarrow> string \<Rightarrow> fault option" where
  "parent_fault w name =
     (if name = [] then Some FileNotFoundError
      else let parent = fst (os_path_split name)
           in if parent = [] then None
              else case node_at w parent of
                     None \<Rightarrow> Some FileNotFoundError
                   | Some Dir \<Rightarrow> None
                   | Some (File _) \<Rightarrow> Some NotADirectoryError)"

text \<open>\<^verbatim>\<open>os.mkdir\<close>.\<close>

definition os_mkdir :: "world \<Rightarrow> string \<Rightarrow> fault option \<times> world" where
  "os_mkdir w name =
     (if node_at w name \<noteq> None then (Some FileExistsError, w)
      else case parent_fault w name of
             Some e \<Rightarrow> (Some e, w)
           | None \<Rightarrow> (None, emit (MadeDir name) (w\<lparr>files := (files w)(name \<mapsto> Dir)\<rparr>)))"

text \<open>
  \<^verbatim>\<open>os.makedirs(name, exist_ok=exist_ok)\<close>, after its source in \<^verbatim>\<open>os.py\<close>. The last step
  is the \<^verbatim>\<open>mkdir\<close> whose \<^verbatim>\<open>OSError\<close> is swallowed when \<open>exist_ok\<close> is set and the name is
  a directory. Before it, a missing head is created by a recursive call, in which a
  \<^verbatim>\<open>FileExistsError\<close> is ignored.
\<close>

definition mkdir_exist_ok :: "world \<Rightarrow> string \<Rightarrow> bool \<Rightarrow> fault option \<times> world" where
  "mkdir_exist_ok w name exist_ok =
     (case os_mkdir w name of
        (None, w') \<Rightarrow> (None, w')
      | (Some e, w') \<Rightarrow>
          if \<not> exist_ok \<or> \<not> os_path_isdir w' name then (Some e, w') else (None, w'))"

definition makedirs_split :: "string \<Rightarrow> string \<times> string" where
  "makedirs_split name =
     (let (head, tail) = os_path_split name
      in if tail = [] then os_path_split head else (head, tail))"

function makedirs :: "world \<Rightarrow> string \<Rightarrow> bool \<Rightarrow> fault option \<times> world" where
  "makedirs w name exist_ok =
     (let head = fst (makedirs_split name); tail = snd (makedirs_split name)
      in if head \<noteq> [] \<and> tail \<noteq> [] \<and> \<not> os_path_exists w head
         then (case makedirs w head exist_ok of
                 (Some e, w') \<Rightarrow>
                   if e \<noteq> FileExistsError then (Some e, w')
                   else if tail = ''.'' then (None, w')
                   else mkdir_exist_ok w' name exist_ok
               | (None, w') \<Rightarrow>
                   if tail = ''.'' then (None, w') else mkdir_exist_ok w' name exist_ok)
         else mkdir_exist_ok w name exist_ok)"
  by pat_completeness auto
termination
proof (relation "measure (\<lambda>(w, name, exist_ok). length name)")
  show "wf (measure (\<lambda>(w, name, exist_ok). length name))"
    by simp
next
  fix w :: world and name :: string and exist_ok :: bool and head tail :: string
  assume h: "head = fst (makedirs_split name)" and t: "tail = snd (makedirs_split name)"
    and c: "head \<noteq> [] \<and> tail \<noteq> [] \<and> \<not> os_path_exists w head"
  have s: "length (fst (os_path_split p)) + length (snd (os_path_split p)) \<le> length p" for p
  proof -
    let ?tail = "rev (takeWhile (\<lambda>c. c \<noteq> CHR ''/'') (rev p))"
    let ?head = "take (length p - length ?tail) p"
    have "length ?tail \<le> length p"
      using length_takeWhile_le [of "\<lambda>c. c \<noteq> CHR ''/''" "rev p"] by simp
    then have "length ?head + length ?tail = length p"
      by simp
    moreover have "length (rstrip_slashes ?head) \<le> length ?head"
      unfolding rstrip_slashes_def length_rev
      using length_dropWhile_le [of "\<lambda>c. c = CHR ''/''" "rev ?head"] by simp
    moreover have "fst (os_path_split p) = rstrip_slashes ?head \<or> fst (os_path_split p) = ?head"
      by (simp add: os_path_split_def Let_def)
    moreover have "snd (os_path_split p) = ?tail"
      by (simp add: os_path_split_def Let_def)
    ultimately show ?thesis
      by (metis add_le_mono1 le_refl order_trans)
  qed
  have "length (fst (makedirs_split name)) + length (snd (makedirs_split name)) \<le> length name"
    using s [of name] s [of "fst (os_path_split name)"]
    by (auto simp: makedirs_split_def Let_def split_def)
  moreover from t c have "0 < length (snd (makedirs_split name))"
    by simp
  ultimately have "length head < length name"
    unfolding h by linarith
  then show "((w, head, exist_ok), (w, name, exist_ok)) \<in> measure (\<lambda>(w, name, exist_ok). length name)"
    by simp
qed

declare makedirs.simps [simp del]

text \<open>
  Writing a file with \<^verbatim>\<open>open(path, "w")\<close> or \<^verbatim>\<open>open(path, "wb")\<close>: \<open>open_fault\<close> is the
  exception that opening raises, if any; otherwise the file is created or truncated, and
  when it is closed it holds what was written to it.
\<close>

definition open_fault :: "world \<Rightarrow> string \<Rightarrow> fault option" where
  "open_fault w path =
     (if node_at w path = Some Dir then Some IsADirectoryError else parent_fault w path)"

definition write_file :: "world \<Rightarrow> string \<Rightarrow> string \<Rightarrow> world" where
  "write_file w path written =
     emit (Wrote path written) (w\<lparr>files := (files w)(path \<mapsto> File written)\<rparr>)"

section \<open>The content file\<close>

text \<open>
  The body of the \<^verbatim>\<open>with\<close> block of \<^verbatim>\<open>get_issues\<close> is a sequence of \<^verbatim>\<open>f.write\<close> calls.
  Each part of it is modelled by the text it writes and the exception it ends with, if
  any: an exception leaves what was written before it in the file.
\<close>

type_synonym writes = "string \<times> fault option"

definition and_then :: "writes \<Rightarrow> writes \<Rightarrow> writes" where
  "and_then a b =
     (case a of
        (s, Some e) \<Rightarrow> (s, Some e)
      | (s, None) \<Rightarrow> (s @ fst b, snd b))"

definition newline :: string where
  "newline = [CHR 0x0A]"

text \<open>The inner loop over \<^verbatim>\<open>comment["reactions"]\<close>.\<close>

fun write_reactions :: "reaction list \<Rightarrow> writes" where
  "write_reactions [] = ([], None)"
| "write_reactions (reaction # rest) =
     (case reaction_author_name reaction of
        None \<Rightarrow> ([], Some KeyError)
      | Some author \<Rightarrow>
          (case reaction_reaction reaction of
             None \<Rightarrow> ([], Some KeyError)
           | Some r \<Rightarrow>
               and_then (''    '' @ py_str author @ '': '' @ py_str r @ newline, None)
                 (write_reactions rest)))"

text \<open>One round of the loop over the comments.\<close>

definition write_comment :: "comment \<Rightarrow> writes" where
  "write_comment comment =
     (case comment_created comment of
        None \<Rightarrow> ([], Some KeyError)
      | Some created \<Rightarrow>
     (case comment_timestamp created of
        Inl e \<Rightarrow> ([], Some e)
      | Inr timestamp \<Rightarrow>
     (case comment_author_name comment of
        None \<Rightarrow> ([], Some KeyError)
      | Some author \<Rightarrow>
     (let comment_section_title =
            ''Comment by '' @ py_str author @ '' at '' @ timestamp
      in and_then
           (newline @ newline @ ''---'' @ newline @ ''---'' @ newline
              @ comment_section_title @ newline, None)
        (and_then
           (case comment_deleted comment of
              None \<Rightarrow> ([], Some KeyError)
            | Some deleted \<Rightarrow> (''Deleted: '' @ py_str deleted @ newline, None))
        (and_then (''Reactions:'' @ newline, None)
        (and_then
           (case comment_reactions comment of
              None \<Rightarrow> ([], Some KeyError)
            | Some reactions \<Rightarrow> write_reactions reactions)
           (case comment_text comment of
              None \<Rightarrow> ([], Some KeyError)
            | Some text \<Rightarrow> (newline @ py_str text @ newline, None)))))))))"

fun write_comments :: "comment list \<Rightarrow> writes" where
  "write_comments [] = ([], None)"
| "write_comments (comment # rest) = and_then (write_comment comment) (write_comments rest)"

text \<open>
  The first three writes: the heading, the description or its default, and the marker of
  the comments.
\<close>

definition description_text :: "issue \<Rightarrow> string" where
  "description_text issue =
     py_str (case description issue of None \<Rightarrow> JStr ''No description'' | Some d \<Rightarrow> d)"

definition write_content :: "jval \<Rightarrow> issue \<Rightarrow> writes" where
  "write_content issue_id issue =
     and_then
       (case summary issue of
          None \<Rightarrow> ([], Some KeyError)
        | Some s \<Rightarrow> (''# '' @ py_str issue_id @ '' - '' @ py_str s @ newline @ newline, None))
     (and_then (description_text issue @ newline @ newline, None)
     (and_then (newline @ ''# Comments'', None)
       (write_comments (case comments issue of None \<Rightarrow> [] | Some cs \<Rightarrow> cs))))"

section \<open>\<^verbatim>\<open>download_attachments\<close>\<close>

definition BASE_YOUTRACK_URL :: string where
  "BASE_YOUTRACK_URL = ''https://ferryhoppers.myjetbrains.com''"

text \<open>\<^verbatim>\<open>response.iter_content(n)\<close>: the body in pieces of \<open>n\<close> bytes, the last one shorter.\<close>

fun iter_content :: "nat \<Rightarrow> string \<Rightarrow> string list" where
  "iter_content n body =
     (if n = 0 \<or> body = [] then [] else take n body # iter_content n (drop n body))"

declare iter_content.simps [simp del]

definition attachment_request :: "string \<Rightarrow> string \<Rightarrow> request" where
  "attachment_request authorization url =
     \<lparr>req_url = BASE_YOUTRACK_URL @ url, req_authorization = authorization, req_params = []\<rparr>"

text \<open>
  The loop over the attachments. A response with another status than 200 is passed over
  and the loop goes on; every exception ends it.
\<close>

fun download_attachments ::
  "tracker \<Rightarrow> attachment list \<Rightarrow> string \<Rightarrow> string \<Rightarrow> world \<Rightarrow> fault option \<times> world" where
  "download_attachments tracker [] issue_id authorization w = (None, w)"
| "download_attachments tracker (attachment # rest) issue_id authorization w =
     (case attachment_url attachment of
        None \<Rightarrow> (Some KeyError, w)
      | Some (JStr url) \<Rightarrow>
          (let w1 = emit (Requested (attachment_request authorization url)) w
           in case tracker (attachment_request authorization url) of
                Inl e \<Rightarrow> (Some e, w1)
              | Inr response \<Rightarrow>
                  if resp_status_code response = 200
                  then (case attachment_name attachment of
                          None \<Rightarrow> (Some KeyError, w1)
                        | Some (JStr name) \<Rightarrow>
                            (let attachment_path = os_path_join issue_id name
                             in case open_fault w1 attachment_path of
                                  Some e \<Rightarrow> (Some e, w1)
                                | None \<Rightarrow>
                                    download_attachments tracker rest issue_id authorization
                                      (write_file w1 attachment_path
                                         (concat (iter_content 1024 (resp_content response)))))
                        | Some _ \<Rightarrow> (Some TypeError, w1))
                  else download_attachments tracker rest issue_id authorization w1)
      | Some _ \<Rightarrow> (Some TypeError, w))"

section \<open>\<^verbatim>\<open>get_issues\<close>\<close>

text \<open>
  The first lines of the loop body: the four subscripts and the target path. A summary
  that is not a string has no \<^verbatim>\<open>replace\<close>.
\<close>

definition issue_path :: "issue \<Rightarrow> fault + jval \<times> string" where
  "issue_path issue =
     (case idReadable issue of
        None \<Rightarrow> Inl KeyError
      | Some issue_id \<Rightarrow>
     (case numberInProject issue of
        None \<Rightarrow> Inl KeyError
      | Some issue_number_in_project \<Rightarrow>
     (case summary issue of
        None \<Rightarrow> Inl KeyError
      | Some issue_summary \<Rightarrow>
     (case project_shortName issue of
        None \<Rightarrow> Inl KeyError
      | Some project_short_name \<Rightarrow>
     (case issue_summary of
        JStr s \<Rightarrow> Inr (issue_id, issue_target_path project_short_name issue_number_in_project s)
      | _ \<Rightarrow> Inl AttributeError)))))"

definition skip_message :: "string \<Rightarrow> string" where
  "skip_message target_path = ''Skipping '' @ target_path @ '' as it already exists.''"

definition processing_message :: "string \<Rightarrow> string" where
  "processing_message target_path = ''Processing '' @ target_path"

text \<open>The rest of the loop body, for an issue that is not skipped.\<close>

definition export_issue ::
  "tracker \<Rightarrow> string \<Rightarrow> issue \<Rightarrow> jval \<Rightarrow> string \<Rightarrow> world \<Rightarrow> fault option \<times> world" where
  "export_issue tracker authorization issue issue_id target_path w =
     (case makedirs (emit (Printed (processing_message target_path)) w)
             target_path True of
        (Some e, w1) \<Rightarrow> (Some e, w1)
      | (None, w1) \<Rightarrow>
          (let content_path = os_path_join target_path ''content.txt''
           in case open_fault w1 content_path of
                Some e \<Rightarrow> (Some e, w1)
              | None \<Rightarrow>
                  (let w2 = write_file w1 content_path (fst (write_content issue_id issue))
                   in case snd (write_content issue_id issue) of
                        Some e \<Rightarrow> (Some e, w2)
                      | None \<Rightarrow>
                          (case attachments issue of
                             Some (a # rest) \<Rightarrow>
                               download_attachments tracker (a # rest) target_path
                                 authorization w2
                           | _ \<Rightarrow> (None, w2)))))"

definition process_issue ::
  "tracker \<Rightarrow> string \<Rightarrow> bool \<Rightarrow> issue \<Rightarrow> world \<Rightarrow> fault option \<times> world" where
  "process_issue tracker authorization full_refresh issue w =
     (case issue_path issue of
        Inl e \<Rightarrow> (Some e, w)
      | Inr (issue_id, target_path) \<Rightarrow>
          if \<not> full_refresh \<and> os_path_exists w target_path
          then (None, emit (Printed (skip_message target_path)) w)
          else export_issue tracker authorization issue issue_id target_path w)"

text \<open>The loop over the issues: an exception ends it, a skipped issue does not.\<close>

fun process_issues ::
  "tracker \<Rightarrow> string \<Rightarrow> bool \<Rightarrow> issue list \<Rightarrow> world \<Rightarrow> fault option \<times> world" where
  "process_issues tracker authorization full_refresh [] w = (None, w)"
| "process_issues tracker authorization full_refresh (issue # rest) w =
     (case process_issue tracker authorization full_refresh issue w of
        (Some e, w') \<Rightarrow> (Some e, w')
      | (None, w') \<Rightarrow> process_issues tracker authorization full_refresh rest w')"

definition issues_fields :: string where
  "issues_fields = ''idReadable,numberInProject,summary,created,description,wikifiedDescription,comments(author(name),created,deleted,text,reactions(author(name),reaction)),attachments(name,url),project(id,shortName)''"

definition issues_request :: "string \<Rightarrow> string \<Rightarrow> request" where
  "issues_request permanent_token project_id =
     \<lparr>req_url = BASE_YOUTRACK_URL @ ''/youtrack/api/issues'',
      req_authorization = ''Bearer '' @ permanent_token,
      req_params = [(''fields'', issues_fields),
                    (''query'', ''project:{'' @ project_id @ ''} sort by: {issue id} desc'')]\<rparr>"

text \<open>
  \<^verbatim>\<open>get_issues(permanent_token, project_id, full_refresh)\<close>, run against a tracker from a
  state of the file system and the console. The result is the exception the call ends
  with, or \<open>None\<close> when it returns, and the state it leaves.
\<close>

definition get_issues ::
  "tracker \<Rightarrow> string \<Rightarrow> string \<Rightarrow> bool \<Rightarrow> world \<Rightarrow> fault option \<times> world" where
  "get_issues tracker permanent_token project_id full_refresh w =
     (let w1 = emit (Requested (issues_request permanent_token project_id)) w
      in case tracker (issues_request permanent_token project_id) of
           Inl e \<Rightarrow> (Some e, w1)
         | Inr response \<Rightarrow>
             if resp_status_code response \<noteq> 200
             then (None, emit (Printed (''Failed to fetch issues: '' @ resp_text response)) w1)
             else (case resp_json response of
                     Inl e \<Rightarrow> (Some e, w1)
                   | Inr issues \<Rightarrow>
                       process_issues tracker (''Bearer '' @ permanent_token) full_refresh
                         issues w1))"

section \<open>A sample project\<close>

text \<open>
  One issue with a comment, a reaction and two attachments, and a tracker that serves it:
  the list of issues and the second attachment with status 200, everything else with 404.
  The theorems below are exercised on it.
\<close>

definition sample_attachment_gone :: attachment where
  "sample_attachment_gone =
     \<lparr>attachment_name = Some (JStr ''gone.txt''), attachment_url = Some (JStr ''/api/files/1'')\<rparr>"

definition sample_attachment_log :: attachment where
  "sample_attachment_log =
     \<lparr>attachment_name = Some (JStr ''log.txt''), attachment_url = Some (JStr ''/api/files/2'')\<rparr>"

definition sample_comment :: comment where
  "sample_comment =
     \<lparr>comment_created = Some (JInt 1700000000000),
      comment_author_name = Some (JStr ''Ann''),
      comment_deleted = Some (JBool False),
      comment_text = Some (JStr ''Done''),
      comment_reactions = Some [\<lparr>reaction_author_name = Some (JStr ''Bob''),
                                 reaction_reaction = Some (JStr ''yes'')\<rparr>]\<rparr>"

definition sample_issue :: issue where
  "sample_issue =
     \<lparr>idReadable = Some (JStr ''DR-7''),
      numberInProject = Some (JInt 7),
      summary = Some (JStr ''Fix: bug/fix''),
      description = Some (JStr ''Steps to reproduce''),
      project_shortName = Some (JStr ''DR''),
      comments = Some [sample_comment],
      attachments = Some [sample_attachment_gone, sample_attachment_log]\<rparr>"

definition sample_tracker :: tracker where
  "sample_tracker req =
     (if req_url req = BASE_YOUTRACK_URL @ ''/youtrack/api/issues''
      then Inr \<lparr>resp_status_code = 200, resp_text = ''[...]'', resp_content = ''[...]'',
                resp_json = Inr [sample_issue]\<rparr>
      else if req_url req = BASE_YOUTRACK_URL @ ''/api/files/2''
      then Inr \<lparr>resp_status_code = 200, resp_text = ''hello'', resp_content = ''hello'',
                resp_json = Inl ValueError\<rparr>
      else Inr \<lparr>resp_status_code = 404, resp_text = ''Not Found'', resp_content = ''Not Found'',
                resp_json = Inl ValueError\<rparr>)"

definition forbidden_tracker :: tracker where
  "forbidden_tracker req =
     Inr \<lparr>resp_status_code = 403, resp_text = ''Forbidden'', resp_content = ''Forbidden'',
           resp_json = Inl ValueError\<rparr>"

definition empty_world :: world where
  "empty_world = \<lparr>files = Map.empty, trace = []\<rparr>"

text \<open>The file system after the folder and the content file of the issue are written.\<close>

definition sample_folder_world :: world where
  "sample_folder_world =
     \<lparr>files = [''exports'' \<mapsto> Dir, ''exports/DR-007-Fix_bugfix'' \<mapsto> Dir,
               ''exports/DR-007-Fix_bugfix/content.txt'' \<mapsto> File ''# DR-7 - Fix: bug/fix''],
      trace = []\<rparr>"

section \<open>Notions used in the statements\<close>

text \<open>
  \<open>extends w w'\<close>: nothing that existed in \<open>w\<close> is gone in \<open>w'\<close>, directories are still
  directories, and the trace of \<open>w'\<close> continues that of \<open>w\<close>. \<open>new_events w w'\<close> is the
  continuation.
\<close>

definition extends :: "world \<Rightarrow> world \<Rightarrow> bool" where
  "extends w w' \<longleftrightarrow>
     (\<forall>p. node_at w p = Some Dir \<longrightarrow> node_at w' p = Some Dir)
     \<and> (\<forall>p. os_path_exists w p \<longrightarrow> os_path_exists w' p)
     \<and> (\<exists>es. trace w' = trace w @ es)"

definition new_events :: "world \<Rightarrow> world \<Rightarrow> event list" where
  "new_events w w' = drop (length (trace w)) (trace w')"

text \<open>
  \<open>fetched_ok\<close>: the attachment has a name and a URL, its download answers with status
  200, and \<open>path\<close> and \<open>content\<close> are where its file goes and what the response holds.
\<close>

definition fetched_ok ::
  "tracker \<Rightarrow> string \<Rightarrow> string \<Rightarrow> attachment \<Rightarrow> string \<Rightarrow> string \<Rightarrow> bool" where
  "fetched_ok tracker authorization issue_id a path content \<longleftrightarrow>
     (case (attachment_url a, attachment_name a) of
        (Some (JStr url), Some (JStr name)) \<Rightarrow>
          (case tracker (attachment_request authorization url) of
             Inr response \<Rightarrow>
               resp_status_code response = 200 \<and> path = os_path_join issue_id name
               \<and> content = resp_content response
           | Inl _ \<Rightarrow> False)
      | _ \<Rightarrow> False)"

section \<open>Facts about the string operations\<close>

lemma replace_removes: "old \<notin> set new \<Longrightarrow> old \<notin> set (replace old new s)"
  by (induction s) (auto simp: replace_def)

lemma set_replace_subset: "set (replace old new s) \<subseteq> set s \<union> set new"
  by (induction s) (auto simp: replace_def)

lemma replace_absent: "old \<notin> set s \<Longrightarrow> replace old new s = s"
  by (induction s) (auto simp: replace_def)

lemma replace_Nil_filter: "replace old [] s = filter (\<lambda>c. c \<noteq> old) s"
  by (induction s) (auto simp: replace_def)

lemma remove_invalid_filter: "remove_invalid s = filter (\<lambda>c. c \<notin> set invalid_chars) s"
  unfolding remove_invalid_def invalid_chars_def
  by (simp add: replace_Nil_filter)

lemma remove_invalid_clean: "set (remove_invalid s) \<inter> set invalid_chars = {}"
  by (auto simp: remove_invalid_filter)

lemma remove_invalid_absent: "set s \<inter> set invalid_chars = {} \<Longrightarrow> remove_invalid s = s"
  unfolding remove_invalid_filter by (rule filter_True) auto

lemma remove_invalid_only: "set s \<subseteq> set invalid_chars \<Longrightarrow> remove_invalid s = []"
  unfolding remove_invalid_filter by (auto simp: filter_empty_conv)

lemma cleaned_body_default_chars:
  "set (cleaned_body name True ''_'') \<inter> set invalid_chars = {}"
  "CHR '' '' \<notin> set (cleaned_body name True ''_'')"
proof -
  have "set (cleaned_body name True ''_'') \<subseteq> set (remove_invalid name) \<union> {CHR ''_''}"
    using set_replace_subset [of "CHR '' ''" "''_''" "remove_invalid name"]
    by (simp add: cleaned_body_def)
  moreover have "CHR ''_'' \<notin> set invalid_chars"
    by (simp add: invalid_chars_def)
  ultimately show "set (cleaned_body name True ''_'') \<inter> set invalid_chars = {}"
    using remove_invalid_clean [of name] by auto
  show "CHR '' '' \<notin> set (cleaned_body name True ''_'')"
    by (simp add: cleaned_body_def replace_removes)
qed

lemma cleaned_body_default_fixed:
  assumes "set s \<inter> set invalid_chars = {}" and "CHR '' '' \<notin> set s"
  shows "cleaned_body s True ''_'' = s"
  using assms by (simp add: cleaned_body_def remove_invalid_absent replace_absent)

lemma upper_reserved: "r \<in> set reserved_names \<Longrightarrow> upper r = r"
  by (auto simp: reserved_names_def upper_def upper_char_def)

lemma reserved_first_char: "r \<in> set reserved_names \<Longrightarrow> \<exists>c t. r = c # t \<and> c \<noteq> CHR ''_''"
  by (auto simp: reserved_names_def)

lemma upper_underscore: "upper (CHR ''_'' # s) = CHR ''_'' # upper s"
  by (simp add: upper_def upper_char_def)

lemma prefixed_not_reserved: "upper (''_'' @ s) \<notin> set reserved_names"
  using reserved_first_char [of "upper (''_'' @ s)"] by (auto simp: upper_underscore)

lemma prefixed_no_dot: "\<not> startswith (''_'' @ s) ''.''"
  by (simp add: startswith_def)

lemma clean_folder_name_default_cases:
  "clean_folder_name_default name =
     (if upper (cleaned_body name True ''_'') \<in> set reserved_names
         \<or> startswith (cleaned_body name True ''_'') ''.''
      then ''_'' @ cleaned_body name True ''_''
      else cleaned_body name True ''_'')"
  by (simp add: clean_folder_name_default_def clean_folder_name_def Let_def)

lemma clean_folder_name_default_chars:
  "set (clean_folder_name_default name) \<inter> set invalid_chars = {}"
  "CHR '' '' \<notin> set (clean_folder_name_default name)"
  using cleaned_body_default_chars [of name]
  by (auto simp: clean_folder_name_default_cases invalid_chars_def)

lemma clean_folder_name_default_not_reserved:
  "upper (clean_folder_name_default name) \<notin> set reserved_names"
  using prefixed_not_reserved [of "cleaned_body name True ''_''"]
  by (simp add: clean_folder_name_default_cases)

lemma clean_folder_name_default_no_dot:
  "\<not> startswith (clean_folder_name_default name) ''.''"
  using prefixed_no_dot [of "cleaned_body name True ''_''"]
  by (simp add: clean_folder_name_default_cases)

text \<open>
  Claim C3. For every input string, the result of \<^verbatim>\<open>clean_folder_name\<close> with the default
  arguments contains none of the nine forbidden characters, is not equal to a reserved
  device name when both are upper-cased, and does not begin with a dot; and when the name
  after the removal loop and the replacement of spaces is a reserved name (upper-cased) or
  begins with a dot, the result is that name with one underscore in front.
\<close>

theorem clean_folder_name_valid:
  "set (clean_folder_name_default name) \<inter> set invalid_chars = {}
   \<and> (\<forall>r \<in> set reserved_names. upper (clean_folder_name_default name) \<noteq> upper r)
   \<and> \<not> startswith (clean_folder_name_default name) ''.''
   \<and> (upper (cleaned_body name True ''_'') \<in> set reserved_names
        \<or> startswith (cleaned_body name True ''_'') ''.''
      \<longrightarrow> clean_folder_name_default name = ''_'' @ cleaned_body name True ''_'')"
proof -
  have "\<forall>r \<in> set reserved_names. upper (clean_folder_name_default name) \<noteq> upper r"
    using clean_folder_name_default_not_reserved [of name] by (auto simp: upper_reserved)
  then show ?thesis
    using clean_folder_name_default_chars(1) [of name] clean_folder_name_default_no_dot [of name]
    by (simp add: clean_folder_name_default_cases)
qed

text \<open>The input \<^verbatim>\<open>"con"\<close> meets the reserved name \<^verbatim>\<open>CON\<close> and becomes \<^verbatim>\<open>"_con"\<close>.\<close>

theorem clean_folder_name_valid_witness:
  "upper (cleaned_body ''con'' True ''_'') \<in> set reserved_names
   \<and> ''CON'' \<in> set reserved_names
   \<and> clean_folder_name_default ''con'' = ''_con''
   \<and> upper (clean_folder_name_default ''con'') \<noteq> upper ''CON''"
proof -
  have h: "upper (cleaned_body ''con'' True ''_'') \<in> set reserved_names"
    by code_simp
  have m: "''CON'' \<in> set reserved_names"
    by code_simp
  have b: "''_'' @ cleaned_body ''con'' True ''_'' = ''_con''"
    by code_simp
  show ?thesis
    using clean_folder_name_valid [of "''con''"] h m b by auto
qed

text \<open>
  Claim C9. \<^verbatim>\<open>clean_folder_name\<close> with the default arguments is idempotent, for every
  input: cleaning a cleaned name changes nothing.
\<close>

theorem clean_folder_name_idempotent:
  "clean_folder_name_default (clean_folder_name_default x) = clean_folder_name_default x"
proof -
  let ?r = "clean_folder_name_default x"
  have "cleaned_body ?r True ''_'' = ?r"
    using clean_folder_name_default_chars [of x] by (rule cleaned_body_default_fixed)
  then show ?thesis
    using clean_folder_name_default_not_reserved [of x] clean_folder_name_default_no_dot [of x]
    by (subst clean_folder_name_default_cases) simp
qed

lemma clean_folder_name_default_only_invalid:
  "set x \<subseteq> set invalid_chars \<Longrightarrow> clean_folder_name_default x = []"
  by (simp add: clean_folder_name_default_cases cleaned_body_def remove_invalid_only
      replace_def upper_def reserved_names_def startswith_def)

lemma endswith_last: "endswith s [c] \<longleftrightarrow> s \<noteq> [] \<and> last s = c"
  by (cases s rule: rev_cases) (auto simp: endswith_def)

lemma os_path_join_last: "endswith (os_path_join a (b @ [c])) [c]"
  by (simp add: endswith_last os_path_join_def)

text \<open>
  Claim C10. A summary made only of forbidden characters (the empty summary included) is
  cleaned to the empty string; no underscore is put in front of an empty result. Two such
  summaries of issues with the same short name and number therefore get the same target
  path, and that path ends in a hyphen.
\<close>

theorem empty_folder_name_collision:
  "set x \<subseteq> set invalid_chars \<and> set y \<subseteq> set invalid_chars \<longrightarrow>
     clean_folder_name_default x = [] \<and> clean_folder_name_default y = []
     \<and> issue_target_path short num x = issue_target_path short num y
     \<and> endswith (issue_target_path short num x) ''-''"
proof (intro impI, elim conjE)
  assume x: "set x \<subseteq> set invalid_chars" and y: "set y \<subseteq> set invalid_chars"
  have cx: "clean_folder_name_default x = []" and cy: "clean_folder_name_default y = []"
    using x y by (simp_all add: clean_folder_name_default_only_invalid)
  have "endswith (issue_target_path short num x) ''-''"
    unfolding issue_target_path_def cx
    using os_path_join_last [of "''exports''" "py_str short @ ''-'' @ zfill (py_str num) ID_PAD_LENGTH" "CHR ''-''"]
    by simp
  then show "clean_folder_name_default x = [] \<and> clean_folder_name_default y = []
     \<and> issue_target_path short num x = issue_target_path short num y
     \<and> endswith (issue_target_path short num x) ''-''"
    using cx cy by (simp add: issue_target_path_def)
qed

text \<open>The summaries \<^verbatim>\<open>"?*"\<close> and \<^verbatim>\<open>""\<close> both lead to \<^verbatim>\<open>exports/DR-007-\<close>.\<close>

theorem empty_folder_name_collision_witness:
  "set ''?*'' \<subseteq> set invalid_chars \<and> set '''' \<subseteq> set invalid_chars
   \<and> ''?*'' \<noteq> ''''
   \<and> clean_folder_name_default ''?*'' = []
   \<and> issue_target_path (JStr ''DR'') (JInt 7) ''?*'' = ''exports/DR-007-''
   \<and> issue_target_path (JStr ''DR'') (JInt 7) '''' = ''exports/DR-007-''"
proof -
  have h: "set ''?*'' \<subseteq> set invalid_chars \<and> set '''' \<subseteq> set invalid_chars"
    by (simp add: invalid_chars_def)
  have e: "issue_target_path (JStr ''DR'') (JInt 7) '''' = ''exports/DR-007-''"
    by code_simp
  show ?thesis
    using empty_folder_name_collision [of "''?*''" "''''" "JStr ''DR''" "JInt 7"] h e by simp
qed

text \<open>
  Claim C4, amended. When the text of the project short name does not begin with a slash,
  the target path is \<^verbatim>\<open>exports/\<close> followed by the short name, a hyphen, the sequence
  number padded with zeros to \<open>ID_PAD_LENGTH\<close>, a hyphen and the cleaned summary. For
  short name \<^verbatim>\<open>DR\<close>, number 7 and summary \<^verbatim>\<open>Fix: bug/fix\<close> it is
  \<^verbatim>\<open>exports/DR-007-Fix_bugfix\<close>.
\<close>

theorem issue_target_path_format:
  "(\<not> startswith (py_str short) ''/'' \<longrightarrow>
      issue_target_path short num title =
        ''exports/'' @ py_str short @ ''-'' @ zfill (py_str num) ID_PAD_LENGTH @ ''-''
          @ clean_folder_name_default title)
   \<and> issue_target_path (JStr ''DR'') (JInt 7) ''Fix: bug/fix'' = ''exports/DR-007-Fix_bugfix''"
proof
  show "\<not> startswith (py_str short) ''/'' \<longrightarrow>
      issue_target_path short num title =
        ''exports/'' @ py_str short @ ''-'' @ zfill (py_str num) ID_PAD_LENGTH @ ''-''
          @ clean_folder_name_default title"
    by (cases "py_str short")
       (simp_all add: issue_target_path_def os_path_join_def startswith_def endswith_def)
  show "issue_target_path (JStr ''DR'') (JInt 7) ''Fix: bug/fix'' = ''exports/DR-007-Fix_bugfix''"
    by code_simp
qed

text \<open>A short name without a leading slash, and a number wider than the padding.\<close>

theorem issue_target_path_format_witness:
  "\<not> startswith (py_str (JStr ''PRJ'')) ''/''
   \<and> issue_target_path (JStr ''PRJ'') (JInt 1234) ''a b'' = ''exports/PRJ-1234-a_b''"
proof -
  have h: "\<not> startswith (py_str (JStr ''PRJ'')) ''/''"
    by code_simp
  have v: "''exports/'' @ py_str (JStr ''PRJ'') @ ''-'' @ zfill (py_str (JInt 1234)) ID_PAD_LENGTH
             @ ''-'' @ clean_folder_name_default ''a b'' = ''exports/PRJ-1234-a_b''"
    by code_simp
  show ?thesis
    using issue_target_path_format [of "JStr ''PRJ''" "JInt 1234" "''a b''"] h v by simp
qed

text \<open>
  Claim C4 as stated fails for a short name that begins with a slash: \<^verbatim>\<open>os.path.join\<close>
  then drops \<^verbatim>\<open>exports\<close>, and the path is \<^verbatim>\<open>/DR-007-Fix_bugfix\<close>.
\<close>

theorem issue_target_path_absolute_short_name:
  "issue_target_path (JStr ''/DR'') (JInt 7) ''Fix: bug/fix'' \<noteq>
     ''exports/'' @ py_str (JStr ''/DR'') @ ''-'' @ zfill (py_str (JInt 7)) ID_PAD_LENGTH @ ''-''
       @ clean_folder_name_default ''Fix: bug/fix''"
  by code_simp

section \<open>Facts about time stamps and the calendar\<close>

lemma py_round_of_int: "py_round (of_int k) = k"
  by (simp add: py_round_def)

lemma floor_ms: "\<lfloor>(of_int ms :: rat) / 1000\<rfloor> = ms div 1000"
  using floor_divide_of_int_eq [of ms 1000, where ?'a = rat] by simp

lemma ceiling_ms: "\<lceil>(of_int ms :: rat) / 1000\<rceil> = - ((- ms) div 1000)"
  using floor_divide_of_int_eq [of "- ms" 1000, where ?'a = rat]
  by (simp add: ceiling_def)

lemma frac_scaled:
  "((of_int ms :: rat) / 1000 - of_int ip) * 1000000 = of_int (ms * 1000 - ip * 1000000)"
  by simp

lemma neg_div_1000: "(- ms) div 1000 = (if ms mod 1000 = 0 then - (ms div 1000) else - (ms div 1000) - 1)"
  for ms :: int
  by (simp add: zdiv_zminus1_eq_if)

lemma fromtimestamp_utc_parts:
  assumes r: "0 \<le> r" "r < 1000"
  shows "fromtimestamp_utc (of_int (1000 * q + r) / 1000) = utc_datetime q (r * 1000)"
proof -
  let ?ms = "1000 * q + r"
  have d: "?ms div 1000 = q" and md: "?ms mod 1000 = r"
    using r by simp_all
  show ?thesis
  proof (cases "?ms < 0")
    case False
    then have m: "modf (of_int ?ms / 1000) = (of_int ?ms / 1000 - of_int q, q)"
      unfolding modf_def floor_ms d by (simp add: Let_def)
    have "?ms * 1000 - q * 1000000 = r * 1000"
      by simp
    then show ?thesis
      unfolding fromtimestamp_utc_def m prod.case frac_scaled py_round_of_int Let_def
      using r by simp
  next
    case neg: True
    show ?thesis
    proof (cases "r = 0")
      case True
      with neg have m: "modf (of_int ?ms / 1000) = (of_int ?ms / 1000 - of_int q, q)"
        unfolding modf_def ceiling_ms neg_div_1000 d md by (simp add: Let_def)
      have "?ms * 1000 - q * 1000000 = 0"
        using True by simp
      then show ?thesis
        unfolding fromtimestamp_utc_def m prod.case frac_scaled py_round_of_int Let_def
        using True by simp
    next
      case False
      with neg have m: "modf (of_int ?ms / 1000) = (of_int ?ms / 1000 - of_int (q + 1), q + 1)"
        unfolding modf_def ceiling_ms neg_div_1000 d md by (simp add: Let_def)
      have "?ms * 1000 - (q + 1) * 1000000 = r * 1000 - 1000000"
        by simp
      then show ?thesis
        unfolding fromtimestamp_utc_def m prod.case frac_scaled py_round_of_int Let_def
        using r by simp
    qed
  qed
qed

lemma fromtimestamp_utc_ms:
  "fromtimestamp_utc (of_int ms / 1000) = utc_datetime (ms div 1000) (ms mod 1000 * 1000)"
  using fromtimestamp_utc_parts [of "ms mod 1000" "ms div 1000"] by simp

lemma month_and_day_correct:
  assumes r: "0 \<le> r" "r < 365"
  shows "case month_and_day r leap of
        (m, d) \<Rightarrow> 1 \<le> m \<and> m \<le> 12 \<and> 1 \<le> d
          \<and> d \<le> DAYS_IN_MONTH ! nat m + (if m = 2 \<and> leap then 1 else 0)
          \<and> DAYS_BEFORE_MONTH ! nat m + (if m > 2 \<and> leap then 1 else 0) + d = r + 1"
proof -
  define m where "m = (r + 50) div 32"
  have b: "32 * m \<le> r + 50" "r + 50 < 32 * m + 32"
    unfolding m_def by linarith+
  with r have "1 \<le> m" "m \<le> 12" by linarith+
  then have "m = 1 \<or> m = 2 \<or> m = 3 \<or> m = 4 \<or> m = 5 \<or> m = 6 \<or> m = 7 \<or> m = 8 \<or> m = 9
     \<or> m = 10 \<or> m = 11 \<or> m = 12"
    by presburger
  then show ?thesis
    unfolding month_and_day_def m_def [symmetric] Let_def
    using b r
    by (elim disjE) (simp_all add: DAYS_IN_MONTH_def DAYS_BEFORE_MONTH_def)
qed

lemma int_div_parts: "0 \<le> r \<Longrightarrow> r < k \<Longrightarrow> (k * q + r) div k = q" for r k q :: int
  by simp

lemma int_mod_parts: "0 \<le> r \<Longrightarrow> r < k \<Longrightarrow> (k * q + r) mod k = r" for r k q :: int
  by simp

lemma days_before_year_parts:
  assumes "0 \<le> b" "b \<le> 3" "0 \<le> c" "c \<le> 24" "0 \<le> e" "e \<le> 3"
  shows "days_before_year (400 * a + 100 * b + 4 * c + e + 1)
           = 146097 * a + 36524 * b + 1461 * c + 365 * e"
proof -
  let ?y = "400 * a + 100 * b + 4 * c + e"
  have "?y div 4 = (4 * (100 * a + 25 * b + c) + e) div 4"
    by (rule arg_cong [where f = "\<lambda>x. x div 4"]) simp
  also have "\<dots> = 100 * a + 25 * b + c"
    using assms by (intro int_div_parts) simp_all
  finally have d4: "?y div 4 = 100 * a + 25 * b + c" .
  have "?y div 100 = (100 * (4 * a + b) + (4 * c + e)) div 100"
    by (rule arg_cong [where f = "\<lambda>x. x div 100"]) simp
  also have "\<dots> = 4 * a + b"
    using assms by (intro int_div_parts) simp_all
  finally have d100: "?y div 100 = 4 * a + b" .
  have "?y div 400 = (400 * a + (100 * b + 4 * c + e)) div 400"
    by (rule arg_cong [where f = "\<lambda>x. x div 400"]) simp
  also have "\<dots> = a"
    using assms by (intro int_div_parts) simp_all
  finally have d400: "?y div 400 = a" .
  show ?thesis
    unfolding days_before_year_def Let_def
    by (simp only: add_diff_cancel_right' d4 d100 d400) simp
qed

lemma is_leap_parts:
  assumes "0 \<le> b" "b \<le> 3" "0 \<le> c" "c \<le> 24" "0 \<le> e" "e \<le> 3"
  shows "is_leap (400 * a + 100 * b + 4 * c + e + 1) \<longleftrightarrow> e = 3 \<and> (c \<noteq> 24 \<or> b = 3)"
proof -
  let ?y = "400 * a + 100 * b + 4 * c + e + 1"
  have "?y mod 4 = (4 * (100 * a + 25 * b + c) + (e + 1)) mod 4"
    by (rule arg_cong [where f = "\<lambda>x. x mod 4"]) simp
  then have m4: "?y mod 4 = (e + 1) mod 4"
    by (simp only: mod_mult_self4)
  have "?y mod 100 = (100 * (4 * a + b) + (4 * c + e + 1)) mod 100"
    by (rule arg_cong [where f = "\<lambda>x. x mod 100"]) simp
  then have m100: "?y mod 100 = (4 * c + e + 1) mod 100"
    by (simp only: mod_mult_self4)
  have "?y mod 400 = (400 * a + (100 * b + 4 * c + e + 1)) mod 400"
    by (rule arg_cong [where f = "\<lambda>x. x mod 400"]) simp
  then have m400: "?y mod 400 = (100 * b + 4 * c + e + 1) mod 400"
    by (simp only: mod_mult_self4)
  have e: "(e + 1) mod 4 = 0 \<longleftrightarrow> e = 3"
  proof (cases "e = 3")
    case False
    with assms have "(e + 1) mod 4 = e + 1" by simp
    with assms False show ?thesis by simp
  qed simp
  have c: "(4 * c + e + 1) mod 100 = 0 \<longleftrightarrow> c = 24" if "e = 3"
  proof (cases "c = 24")
    case False
    with assms that have "(4 * c + e + 1) mod 100 = 4 * c + e + 1" by simp
    with assms False show ?thesis by simp
  qed (simp add: that)
  have b: "(100 * b + 4 * c + e + 1) mod 400 = 0 \<longleftrightarrow> b = 3" if "e = 3" "c = 24"
  proof (cases "b = 3")
    case False
    with assms that have "(100 * b + 4 * c + e + 1) mod 400 = 100 * b + 4 * c + e + 1" by simp
    with assms False show ?thesis by simp
  qed (simp add: that)
  show ?thesis
    unfolding is_leap_def m4 m100 m400 using e c b by (cases "e = 3"; cases "c = 24") simp_all
qed

lemma year_bound:
  fixes a b c e r :: int
  assumes g: "146097 * a + 36524 * b + 1461 * c + 365 * e + r \<le> 3652058"
    and "0 \<le> b" "b \<le> 4" "0 \<le> c" "c \<le> 24" "0 \<le> e" "e \<le> 4" "0 \<le> r"
  shows "400 * a + 100 * b + 4 * c + e \<le> 9998"
proof (rule ccontr)
  assume "\<not> 400 * a + 100 * b + 4 * c + e \<le> 9998"
  then have f: "9999 \<le> 400 * a + 100 * b + 4 * c + e" by simp
  have "24 \<le> a" using f assms by linarith
  moreover have "a \<le> 24" using assms by linarith
  ultimately have a: "a = 24" by simp
  have "3 \<le> b" using f assms unfolding a by linarith
  moreover have "b \<le> 3" using assms unfolding a by linarith
  ultimately have b: "b = 3" by simp
  have "24 \<le> c" using f assms unfolding a b by linarith
  with assms have c: "c = 24" by simp
  have "3 \<le> e" using f unfolding a b c by linarith
  moreover have "e \<le> 2" using g assms(8) unfolding a b c by linarith
  ultimately show False by simp
qed

lemma ord2ymd_correct:
  "case ord2ymd n of
     (y, m, d) \<Rightarrow> 1 \<le> m \<and> m \<le> 12 \<and> 1 \<le> d \<and> d \<le> days_in_month y m \<and> ymd2ord y m d = n
       \<and> (1 \<le> n \<and> n \<le> MAXORDINAL \<longrightarrow> 1 \<le> y \<and> y \<le> 9999)"
proof -
  define a where "a = (n - 1) div 146097"
  define r400 where "r400 = (n - 1) mod 146097"
  define b where "b = r400 div 36524"
  define r100 where "r100 = r400 mod 36524"
  define c where "c = r100 div 1461"
  define r4 where "r4 = r100 mod 1461"
  define e where "e = r4 div 365"
  define r1 where "r1 = r4 mod 365"
  have n: "n = 146097 * a + r400 + 1" and r400: "0 \<le> r400" "r400 < 146097"
    by (simp_all add: a_def r400_def)
  have r400': "r400 = 36524 * b + r100" and r100: "0 \<le> r100" "r100 < 36524"
    by (simp_all add: b_def r100_def)
  have r100': "r100 = 1461 * c + r4" and r4: "0 \<le> r4" "r4 < 1461"
    by (simp_all add: c_def r4_def)
  have r4': "r4 = 365 * e + r1" and r1: "0 \<le> r1" "r1 < 365"
    by (simp_all add: e_def r1_def)
  have b: "0 \<le> b" "b \<le> 4"
    using r400 r100 unfolding r400' by linarith+
  have c: "0 \<le> c" "c \<le> 24"
    using r100 r4 unfolding r100' by linarith+
  have e: "0 \<le> e" "e \<le> 4"
    using r4 r1 unfolding r4' by linarith+
  define leap where "leap = (e = 3 \<and> (c \<noteq> 24 \<or> b = 3))"
  have ord: "ord2ymd n =
      (if e = 4 \<or> b = 4 then (a * 400 + 1 + b * 100 + c * 4 + e - 1, 12, 31)
       else (case month_and_day r1 leap of (m, d) \<Rightarrow> (a * 400 + 1 + b * 100 + c * 4 + e, m, d)))"
    unfolding ord2ymd_def Let_def leap_def r1_def e_def r4_def c_def r100_def b_def r400_def a_def
    by (rule refl)
  have sum: "n = 146097 * a + 36524 * b + 1461 * c + 365 * e + r1 + 1"
    by (simp add: n r400' r100' r4')
  have yr: "0 \<le> a \<and> 400 * a + 100 * b + 4 * c + e \<le> 9998"
    if "1 \<le> n" "n \<le> MAXORDINAL"
  proof
    from that n r400 show "0 \<le> a" by linarith
    from that have "146097 * a + 36524 * b + 1461 * c + 365 * e + r1 \<le> 3652058"
      unfolding sum MAXORDINAL_def by simp
    then show "400 * a + 100 * b + 4 * c + e \<le> 9998"
      using b c e r1 by (intro year_bound [of a b c e r1]) simp_all
  qed
  show ?thesis
  proof (cases "b = 4")
    case True
    with r400 r100 have "r100 = 0" unfolding r400' by linarith
    with r4 c have "c = 0" "r4 = 0" unfolding r100' by linarith+
    with r1 e have "e = 0" "r1 = 0" unfolding r4' by linarith+
    define Y where "Y = 400 * a + 100 * 3 + 4 * 24 + 3 + 1"
    have y: "days_before_year Y = 146097 * a + 36524 * 3 + 1461 * 24 + 365 * 3"
      unfolding Y_def by (rule days_before_year_parts) simp_all
    have l: "is_leap Y"
      unfolding Y_def by (subst is_leap_parts) simp_all
    have "ord2ymd n = (Y, 12, 31)"
      unfolding ord Y_def using True \<open>c = 0\<close> \<open>e = 0\<close> by simp
    moreover have "n = 146097 * a + 146097"
      using True \<open>r100 = 0\<close> by (simp add: n r400')
    moreover have "1 \<le> n \<and> n \<le> MAXORDINAL \<longrightarrow> 1 \<le> Y \<and> Y \<le> 9999"
      using yr True \<open>c = 0\<close> \<open>e = 0\<close> unfolding Y_def by auto
    ultimately show ?thesis
      using y l
      by (simp add: days_in_month_def ymd2ord_def days_before_month_def DAYS_IN_MONTH_def
          DAYS_BEFORE_MONTH_def)
  next
    case False
    with b have b3: "b \<le> 3" by simp
    show ?thesis
    proof (cases "e = 4")
      case True
      with r4 r1 have "r1 = 0" unfolding r4' by linarith
      with True r100 r4 have c23: "c \<le> 23" unfolding r100' r4' by linarith
      define Y where "Y = 400 * a + 100 * b + 4 * c + 3 + 1"
      have y: "days_before_year Y = 146097 * a + 36524 * b + 1461 * c + 365 * 3"
        unfolding Y_def using b b3 c by (intro days_before_year_parts) simp_all
      have "is_leap Y \<longleftrightarrow> (3::int) = 3 \<and> (c \<noteq> 24 \<or> b = 3)"
        unfolding Y_def using b b3 c by (intro is_leap_parts) simp_all
      with c23 have l: "is_leap Y" by simp
      have "ord2ymd n = (Y, 12, 31)"
        unfolding ord Y_def using True by simp
      moreover have "n = 146097 * a + 36524 * b + 1461 * c + 1461"
        using True \<open>r1 = 0\<close> by (simp add: n r400' r100' r4')
      moreover have "1 \<le> n \<and> n \<le> MAXORDINAL \<longrightarrow> 1 \<le> Y \<and> Y \<le> 9999"
        using yr True b c unfolding Y_def by auto
      ultimately show ?thesis
        using y l
        by (simp add: days_in_month_def ymd2ord_def days_before_month_def DAYS_IN_MONTH_def
            DAYS_BEFORE_MONTH_def)
    next
      case e4: False
      with e have e3: "e \<le> 3" by simp
      define Y where "Y = 400 * a + 100 * b + 4 * c + e + 1"
      have y: "days_before_year Y = 146097 * a + 36524 * b + 1461 * c + 365 * e"
        unfolding Y_def using b b3 c e e3 by (intro days_before_year_parts) simp_all
      have l: "is_leap Y = leap"
        unfolding Y_def leap_def using b b3 c e e3 by (intro is_leap_parts) simp_all
      obtain m d where md: "month_and_day r1 leap = (m, d)"
        by (cases "month_and_day r1 leap")
      with month_and_day_correct [OF r1, of leap]
      have m: "1 \<le> m" "m \<le> 12" and d: "1 \<le> d"
        "d \<le> DAYS_IN_MONTH ! nat m + (if m = 2 \<and> leap then 1 else 0)"
        "DAYS_BEFORE_MONTH ! nat m + (if m > 2 \<and> leap then 1 else 0) + d = r1 + 1"
        by simp_all
      have dim: "days_in_month Y m = DAYS_IN_MONTH ! nat m + (if m = 2 \<and> leap then 1 else 0)"
        unfolding days_in_month_def l by (simp add: DAYS_IN_MONTH_def)
      have "ord2ymd n = (Y, m, d)"
        unfolding ord Y_def md using False e4 by simp
      moreover note sum
      moreover have "1 \<le> n \<and> n \<le> MAXORDINAL \<longrightarrow> 1 \<le> Y \<and> Y \<le> 9999"
        using yr b c e unfolding Y_def by auto
      ultimately show ?thesis
        using m d by (simp add: dim ymd2ord_def days_before_month_def y l)
    qed
  qed
qed

lemma epoch_ordinal: "ymd2ord 1970 1 1 = 719163"
  by (simp add: ymd2ord_def days_before_year_def days_before_month_def DAYS_BEFORE_MONTH_def)

lemma time_of_day:
  fixes rem :: int
  assumes "0 \<le> rem" "rem < 86400"
  shows "0 \<le> rem div 3600 \<and> rem div 3600 < 24
       \<and> 0 \<le> rem mod 3600 div 60 \<and> rem mod 3600 div 60 < 60
       \<and> 0 \<le> rem mod 60 \<and> rem mod 60 < 60
       \<and> (rem div 3600 * 60 + rem mod 3600 div 60) * 60 + rem mod 60 = rem"
proof -
  define H where "H = rem div 3600"
  define R where "R = rem mod 3600"
  define M where "M = R div 60"
  define S where "S = rem mod 60"
  have "H \<le> 86399 div 3600"
    unfolding H_def using assms by (intro zdiv_mono1) simp_all
  then have H: "0 \<le> H" "H < 24"
    using assms by (simp_all add: H_def pos_imp_zdiv_nonneg_iff)
  have R: "0 \<le> R" "R < 3600" "rem = 3600 * H + R"
    by (simp_all add: R_def H_def)
  have "M \<le> 3599 div 60"
    unfolding M_def using R by (intro zdiv_mono1) simp_all
  then have M: "0 \<le> M" "M < 60"
    using R by (simp_all add: M_def pos_imp_zdiv_nonneg_iff)
  have "S = R mod 60"
    by (simp add: S_def R_def mod_mod_cancel)
  then have S: "0 \<le> S" "S < 60" "R = 60 * M + S"
    by (simp_all add: M_def)
  have "(H * 60 + M) * 60 + S = rem"
    using R S by simp
  with H M S show ?thesis
    unfolding H_def M_def S_def R_def by simp
qed

lemma utc_datetime_in_range:
  assumes "- 62135596800 \<le> secs" "secs \<le> 253402300799"
  shows "\<exists>y m d hh mm ss.
           utc_datetime secs us = Inr \<lparr>dt_year = y, dt_month = m, dt_day = d, dt_hour = hh,
                                       dt_minute = mm, dt_second = ss, dt_microsecond = us\<rparr>
         \<and> 1 \<le> y \<and> y \<le> 9999 \<and> 1 \<le> m \<and> m \<le> 12 \<and> 1 \<le> d \<and> d \<le> days_in_month y m
         \<and> 0 \<le> hh \<and> hh < 24 \<and> 0 \<le> mm \<and> mm < 60 \<and> 0 \<le> ss \<and> ss < 60
         \<and> (((ymd2ord y m d - ymd2ord 1970 1 1) * 24 + hh) * 60 + mm) * 60 + ss = secs"
proof -
  define days where "days = secs div 86400"
  define rem where "rem = secs mod 86400"
  have secs: "secs = 86400 * days + rem" and rem: "0 \<le> rem" "rem < 86400"
    by (simp_all add: days_def rem_def)
  have "(- 62135596800) div 86400 \<le> days" "days \<le> 253402300799 div 86400"
    unfolding days_def using assms by (intro zdiv_mono1; simp)+
  then have o: "1 \<le> days + 719163" "days + 719163 \<le> MAXORDINAL"
    by (simp_all add: MAXORDINAL_def)
  obtain y m d where r: "ord2ymd (days + 719163) = (y, m, d)"
    by (cases "ord2ymd (days + 719163)")
  with ord2ymd_correct [of "days + 719163"] o
  have c: "1 \<le> m" "m \<le> 12" "1 \<le> d" "d \<le> days_in_month y m"
    "ymd2ord y m d = days + 719163" "1 \<le> y" "y \<le> 9999"
    by simp_all
  have u: "utc_datetime secs us = Inr \<lparr>dt_year = y, dt_month = m, dt_day = d,
      dt_hour = rem div 3600, dt_minute = rem mod 3600 div 60, dt_second = rem mod 60,
      dt_microsecond = us\<rparr>"
    unfolding utc_datetime_def Let_def days_def [symmetric] rem_def [symmetric]
    using o r by simp
  have "(((ymd2ord y m d - ymd2ord 1970 1 1) * 24 + rem div 3600) * 60 + rem mod 3600 div 60) * 60
          + rem mod 60
        = 86400 * days + ((rem div 3600 * 60 + rem mod 3600 div 60) * 60 + rem mod 60)"
    unfolding c epoch_ordinal by (simp add: algebra_simps)
  with time_of_day [OF rem] have "(((ymd2ord y m d - ymd2ord 1970 1 1) * 24 + rem div 3600) * 60 + rem mod 3600 div 60) * 60
          + rem mod 60 = secs"
    unfolding secs by simp
  with u c time_of_day [OF rem] show ?thesis
    by blast
qed

lemma utc_datetime_out_of_range:
  assumes "secs < - 62135596800 \<or> 253402300799 < secs"
  shows "utc_datetime secs us = Inl ValueError"
proof -
  from assms have "secs div 86400 + 719163 < 1 \<or> MAXORDINAL < secs div 86400 + 719163"
  proof
    assume "secs < - 62135596800"
    then have "secs \<le> - 62135596801" by simp
    then have "secs div 86400 \<le> (- 62135596801) div 86400"
      by (intro zdiv_mono1) simp_all
    then show ?thesis by simp
  next
    assume "253402300799 < secs"
    then have "253402300800 \<le> secs" by simp
    then have "253402300800 div 86400 \<le> secs div 86400"
      by (intro zdiv_mono1) simp_all
    then show ?thesis by (simp add: MAXORDINAL_def)
  qed
  then show ?thesis
    unfolding utc_datetime_def Let_def by auto
qed

text \<open>Where the time stamp goes: the section title of a comment, and the content file.\<close>

lemma fst_and_then: "\<exists>t. fst (and_then a b) = fst a @ t"
  by (cases a; cases "snd a") (auto simp: and_then_def)

lemma write_comment_title:
  assumes "comment_created c = Some (JInt ms)" and "comment_author_name c = Some author"
    and "comment_timestamp (JInt ms) = Inr ts"
  shows "\<exists>rest. fst (write_comment c)
           = newline @ newline @ ''---'' @ newline @ ''---'' @ newline
             @ ''Comment by '' @ py_str author @ '' at '' @ ts @ newline @ rest"
proof -
  let ?head = "newline @ newline @ ''---'' @ newline @ ''---'' @ newline
             @ ''Comment by '' @ py_str author @ '' at '' @ ts @ newline"
  from assms obtain b where "write_comment c = and_then (?head, None) b"
    by (simp add: write_comment_def Let_def)
  with fst_and_then [of "(?head, None)" b] show ?thesis
    by auto
qed

lemma write_comment_no_timestamp:
  assumes "comment_created c = Some (JInt ms)" and "comment_timestamp (JInt ms) = Inl e"
  shows "write_comment c = ([], Some e)"
  using assms by (simp add: write_comment_def)

lemma write_comments_append:
  "snd (write_comments before) = None \<Longrightarrow>
     fst (write_comments (before @ c # after))
       = fst (write_comments before) @ fst (and_then (write_comment c) (write_comments after))"
proof (induction before)
  case Nil
  then show ?case by simp
next
  case (Cons b before)
  obtain s r where b: "write_comment b = (s, r)" by (cases "write_comment b")
  from Cons.prems b have r: "r = None" and n: "snd (write_comments before) = None"
    by (cases r; simp add: and_then_def)+
  from Cons.IH [OF n] b r show ?case
    by (simp add: and_then_def)
qed

lemma write_content_comment:
  assumes "summary issue = Some s" and "comments issue = Some (before @ c # after)"
    and "snd (write_comments before) = None"
    and "comment_created c = Some (JInt ms)" and "comment_author_name c = Some author"
    and "comment_timestamp (JInt ms) = Inr ts"
  shows "\<exists>pre post. fst (write_content issue_id issue)
           = pre @ newline @ ''# Comments'' @ fst (write_comments before)
             @ newline @ newline @ ''---'' @ newline @ ''---'' @ newline
             @ ''Comment by '' @ py_str author @ '' at '' @ ts @ newline @ post"
proof -
  from write_comment_title [OF assms(4-6)] obtain rest
    where t: "fst (write_comment c)
           = newline @ newline @ ''---'' @ newline @ ''---'' @ newline
             @ ''Comment by '' @ py_str author @ '' at '' @ ts @ newline @ rest"
    by blast
  from fst_and_then [of "write_comment c" "write_comments after"] obtain t'
    where a: "fst (and_then (write_comment c) (write_comments after)) = fst (write_comment c) @ t'"
    by blast
  let ?pre = "''# '' @ py_str issue_id @ '' - '' @ py_str s @ newline @ newline
      @ description_text issue @ newline @ newline"
  have "fst (write_content issue_id issue)
      = ?pre @ newline @ ''# Comments'' @ fst (write_comments (before @ c # after))"
    using assms(1,2) by (simp add: write_content_def and_then_def)
  also have "\<dots> = ?pre @ newline @ ''# Comments'' @ fst (write_comments before)
             @ newline @ newline @ ''---'' @ newline @ ''---'' @ newline
             @ ''Comment by '' @ py_str author @ '' at '' @ ts @ newline @ (rest @ t')"
    unfolding write_comments_append [OF assms(3)] a t by simp
  finally show ?thesis
    by blast
qed

text \<open>
  Claim C8. The section title written for a comment created at \<open>ms\<close> milliseconds after
  the epoch reads \<^verbatim>\<open>Comment by\<close>, the author, \<^verbatim>\<open>at\<close> and the time stamp, and that time
  stamp is the ISO-8601 text, with the offset \<^verbatim>\<open>+00:00\<close>, of a valid calendar date and
  time of day in UTC that lies exactly \<open>ms div 1000\<close> seconds after 1 January 1970: the
  instant cut to whole seconds. This holds for every instant in the years 1 to 9999, for
  the text \<^verbatim>\<open>write_comment\<close> produces and for the content of the file, at any position
  among the comments whose predecessors are written without an exception. Outside these
  years \<^verbatim>\<open>fromtimestamp\<close> raises and nothing of the comment is written. For
  1700000000000 the time stamp is \<^verbatim>\<open>2023-11-14T22:13:20+00:00\<close>.
\<close>

theorem comment_timestamp_iso8601:
  "(- 62135596800000 \<le> ms \<and> ms \<le> 253402300799999 \<longrightarrow>
      (\<exists>y m d hh mm ss.
          comment_timestamp (JInt ms) = Inr (iso_fields y m d hh mm ss)
        \<and> 1 \<le> y \<and> y \<le> 9999 \<and> 1 \<le> m \<and> m \<le> 12 \<and> 1 \<le> d \<and> d \<le> days_in_month y m
        \<and> 0 \<le> hh \<and> hh < 24 \<and> 0 \<le> mm \<and> mm < 60 \<and> 0 \<le> ss \<and> ss < 60
        \<and> (((ymd2ord y m d - ymd2ord 1970 1 1) * 24 + hh) * 60 + mm) * 60 + ss = ms div 1000))
   \<and> (ms < - 62135596800000 \<or> 253402300799999 < ms \<longrightarrow>
        comment_timestamp (JInt ms) = Inl ValueError)
   \<and> comment_timestamp (JInt 1700000000000) = Inr ''2023-11-14T22:13:20+00:00''
   \<and> (comment_created c = Some (JInt ms) \<and> comment_author_name c = Some author
        \<and> - 62135596800000 \<le> ms \<and> ms \<le> 253402300799999 \<longrightarrow>
      (\<exists>y m d hh mm ss rest.
          fst (write_comment c)
            = newline @ newline @ ''---'' @ newline @ ''---'' @ newline
              @ ''Comment by '' @ py_str author @ '' at '' @ iso_fields y m d hh mm ss
              @ newline @ rest
        \<and> 1 \<le> y \<and> y \<le> 9999 \<and> 1 \<le> m \<and> m \<le> 12 \<and> 1 \<le> d \<and> d \<le> days_in_month y m
        \<and> 0 \<le> hh \<and> hh < 24 \<and> 0 \<le> mm \<and> mm < 60 \<and> 0 \<le> ss \<and> ss < 60
        \<and> (((ymd2ord y m d - ymd2ord 1970 1 1) * 24 + hh) * 60 + mm) * 60 + ss = ms div 1000))
   \<and> (summary issue = Some s \<and> comments issue = Some (before @ c # after)
        \<and> snd (write_comments before) = None
        \<and> comment_created c = Some (JInt ms) \<and> comment_author_name c = Some author
        \<and> comment_timestamp (JInt ms) = Inr ts \<longrightarrow>
      (\<exists>pre post.
          fst (write_content issue_id issue)
            = pre @ newline @ ''# Comments'' @ fst (write_comments before)
              @ newline @ newline @ ''---'' @ newline @ ''---'' @ newline
              @ ''Comment by '' @ py_str author @ '' at '' @ ts @ newline @ post))
   \<and> (comment_created c = Some (JInt ms)
        \<and> (ms < - 62135596800000 \<or> 253402300799999 < ms) \<longrightarrow>
      write_comment c = ([], Some ValueError))"
proof -
  have in_range: "\<exists>y m d hh mm ss.
          comment_timestamp (JInt ms) = Inr (iso_fields y m d hh mm ss)
        \<and> 1 \<le> y \<and> y \<le> 9999 \<and> 1 \<le> m \<and> m \<le> 12 \<and> 1 \<le> d \<and> d \<le> days_in_month y m
        \<and> 0 \<le> hh \<and> hh < 24 \<and> 0 \<le> mm \<and> mm < 60 \<and> 0 \<le> ss \<and> ss < 60
        \<and> (((ymd2ord y m d - ymd2ord 1970 1 1) * 24 + hh) * 60 + mm) * 60 + ss = ms div 1000"
    (is ?in_range)
    if "- 62135596800000 \<le> ms \<and> ms \<le> 253402300799999"
  proof -
    from that
    have "(- 62135596800000) div 1000 \<le> ms div 1000" "ms div 1000 \<le> 253402300799999 div 1000"
      by (intro zdiv_mono1; simp)+
    then have "- 62135596800 \<le> ms div 1000" "ms div 1000 \<le> 253402300799"
      by simp_all
    from utc_datetime_in_range [OF this, of "ms mod 1000 * 1000"] show ?thesis
      unfolding comment_timestamp_def jval.case fromtimestamp_utc_ms
      by (elim exE conjE, intro exI conjI) (simp_all add: isoformat_seconds_def)
  qed
  have out_of_range: "comment_timestamp (JInt ms) = Inl ValueError" (is ?out_of_range)
    if "ms < - 62135596800000 \<or> 253402300799999 < ms"
  proof -
    from that have "ms div 1000 < - 62135596800 \<or> 253402300799 < ms div 1000"
    proof
      assume "ms < - 62135596800000"
      then have "ms \<le> - 62135596800001" by simp
      then have "ms div 1000 \<le> (- 62135596800001) div 1000"
        by (intro zdiv_mono1) simp_all
      then show ?thesis by simp
    next
      assume "253402300799999 < ms"
      then have "253402300800000 \<le> ms" by simp
      then have "253402300800000 div 1000 \<le> ms div 1000"
        by (intro zdiv_mono1) simp_all
      then show ?thesis by simp
    qed
    then show ?thesis
      unfolding comment_timestamp_def jval.case fromtimestamp_utc_ms
      by (simp add: utc_datetime_out_of_range)
  qed
  have example: "comment_timestamp (JInt 1700000000000) = Inr ''2023-11-14T22:13:20+00:00''"
    by code_simp
  have title: "\<exists>y m d hh mm ss rest.
          fst (write_comment c)
            = newline @ newline @ ''---'' @ newline @ ''---'' @ newline
              @ ''Comment by '' @ py_str author @ '' at '' @ iso_fields y m d hh mm ss
              @ newline @ rest
        \<and> 1 \<le> y \<and> y \<le> 9999 \<and> 1 \<le> m \<and> m \<le> 12 \<and> 1 \<le> d \<and> d \<le> days_in_month y m
        \<and> 0 \<le> hh \<and> hh < 24 \<and> 0 \<le> mm \<and> mm < 60 \<and> 0 \<le> ss \<and> ss < 60
        \<and> (((ymd2ord y m d - ymd2ord 1970 1 1) * 24 + hh) * 60 + mm) * 60 + ss = ms div 1000"
    (is ?title)
    if h: "comment_created c = Some (JInt ms) \<and> comment_author_name c = Some author
        \<and> - 62135596800000 \<le> ms \<and> ms \<le> 253402300799999"
  proof -
    from h in_range obtain y m d hh mm ss
      where ts: "comment_timestamp (JInt ms) = Inr (iso_fields y m d hh mm ss)"
        and v: "1 \<le> y \<and> y \<le> 9999 \<and> 1 \<le> m \<and> m \<le> 12 \<and> 1 \<le> d \<and> d \<le> days_in_month y m
        \<and> 0 \<le> hh \<and> hh < 24 \<and> 0 \<le> mm \<and> mm < 60 \<and> 0 \<le> ss \<and> ss < 60
        \<and> (((ymd2ord y m d - ymd2ord 1970 1 1) * 24 + hh) * 60 + mm) * 60 + ss = ms div 1000"
      by blast
    from h have "comment_created c = Some (JInt ms)" "comment_author_name c = Some author"
      by blast+
    from write_comment_title [OF this ts] v show ?thesis
      by blast
  qed
  have content: "\<exists>pre post.
          fst (write_content issue_id issue)
            = pre @ newline @ ''# Comments'' @ fst (write_comments before)
              @ newline @ newline @ ''---'' @ newline @ ''---'' @ newline
              @ ''Comment by '' @ py_str author @ '' at '' @ ts @ newline @ post"
    (is ?content)
    if h: "summary issue = Some s \<and> comments issue = Some (before @ c # after)
        \<and> snd (write_comments before) = None
        \<and> comment_created c = Some (JInt ms) \<and> comment_author_name c = Some author
        \<and> comment_timestamp (JInt ms) = Inr ts"
  proof -
    from h have "summary issue = Some s" "comments issue = Some (before @ c # after)"
      "snd (write_comments before) = None" "comment_created c = Some (JInt ms)"
      "comment_author_name c = Some author" "comment_timestamp (JInt ms) = Inr ts"
      by blast+
    then show ?thesis
      by (rule write_content_comment)
  qed
  have unrendered: "write_comment c = ([], Some ValueError)" (is ?unrendered)
    if h: "comment_created c = Some (JInt ms)
        \<and> (ms < - 62135596800000 \<or> 253402300799999 < ms)"
  proof -
    from h out_of_range have e: "comment_timestamp (JInt ms) = Inl ValueError"
      by blast
    from h have "comment_created c = Some (JInt ms)"
      by blast
    then show ?thesis
      using e by (rule write_comment_no_timestamp)
  qed
  from in_range have 1: "- 62135596800000 \<le> ms \<and> ms \<le> 253402300799999 \<longrightarrow> ?in_range" ..
  from out_of_range have 2: "ms < - 62135596800000 \<or> 253402300799999 < ms \<longrightarrow> ?out_of_range" ..
  from title have 4: "comment_created c = Some (JInt ms) \<and> comment_author_name c = Some author
        \<and> - 62135596800000 \<le> ms \<and> ms \<le> 253402300799999 \<longrightarrow> ?title" ..
  from content have 5: "summary issue = Some s \<and> comments issue = Some (before @ c # after)
        \<and> snd (write_comments before) = None
        \<and> comment_created c = Some (JInt ms) \<and> comment_author_name c = Some author
        \<and> comment_timestamp (JInt ms) = Inr ts \<longrightarrow> ?content" ..
  have 6: "comment_created c = Some (JInt ms)
        \<and> (ms < - 62135596800000 \<or> 253402300799999 < ms) \<longrightarrow> ?unrendered"
  proof
    assume "comment_created c = Some (JInt ms)
        \<and> (ms < - 62135596800000 \<or> 253402300799999 < ms)"
    then show ?unrendered by (rule unrendered)
  qed
  show ?thesis
    by (rule conjI [OF 1 conjI [OF 2 conjI [OF example conjI [OF 4 conjI [OF 5 6]]]]])
qed

text \<open>
  The comment of the sample issue, created at 1700000000000, as the content file shows
  it; and the same comment with a creation time in the year 10000, for which nothing is
  written.
\<close>

theorem comment_timestamp_iso8601_witness:
  "- 62135596800000 \<le> (1700000000000::int) \<and> (1700000000000::int) \<le> 253402300799999
   \<and> comment_created sample_comment = Some (JInt 1700000000000)
   \<and> comment_author_name sample_comment = Some (JStr ''Ann'')
   \<and> comment_timestamp (JInt 1700000000000) = Inr ''2023-11-14T22:13:20+00:00''
   \<and> (\<exists>y m d hh mm ss rest.
          fst (write_comment sample_comment)
            = newline @ newline @ ''---'' @ newline @ ''---'' @ newline
              @ ''Comment by '' @ py_str (JStr ''Ann'') @ '' at '' @ iso_fields y m d hh mm ss
              @ newline @ rest
        \<and> 1 \<le> y \<and> y \<le> 9999 \<and> 1 \<le> m \<and> m \<le> 12 \<and> 1 \<le> d \<and> d \<le> days_in_month y m
        \<and> 0 \<le> hh \<and> hh < 24 \<and> 0 \<le> mm \<and> mm < 60 \<and> 0 \<le> ss \<and> ss < 60
        \<and> (((ymd2ord y m d - ymd2ord 1970 1 1) * 24 + hh) * 60 + mm) * 60 + ss
            = 1700000000000 div 1000)
   \<and> fst (write_comment sample_comment)
       = newline @ newline @ ''---'' @ newline @ ''---'' @ newline
         @ ''Comment by Ann at 2023-11-14T22:13:20+00:00'' @ newline
         @ ''Deleted: False'' @ newline @ ''Reactions:'' @ newline
         @ ''    Bob: yes'' @ newline @ newline @ ''Done'' @ newline
   \<and> summary sample_issue = Some (JStr ''Fix: bug/fix'')
   \<and> comments sample_issue = Some ([] @ sample_comment # [])
   \<and> snd (write_comments []) = None
   \<and> (\<exists>pre post.
          fst (write_content (JStr ''DR-7'') sample_issue)
            = pre @ newline @ ''# Comments'' @ fst (write_comments [])
              @ newline @ newline @ ''---'' @ newline @ ''---'' @ newline
              @ ''Comment by '' @ py_str (JStr ''Ann'') @ '' at '' @ ''2023-11-14T22:13:20+00:00''
              @ newline @ post)
   \<and> (253402300799999::int) < 253402300800000
   \<and> write_comment (sample_comment\<lparr>comment_created := Some (JInt 253402300800000)\<rparr>)
       = ([], Some ValueError)"
proof -
  let ?far = "sample_comment\<lparr>comment_created := Some (JInt 253402300800000)\<rparr>"
  have r: "- 62135596800000 \<le> (1700000000000::int) \<and> (1700000000000::int) \<le> 253402300799999"
    by simp
  have c: "comment_created sample_comment = Some (JInt 1700000000000)"
    and a: "comment_author_name sample_comment = Some (JStr ''Ann'')"
    by (simp_all add: sample_comment_def)
  have s: "summary sample_issue = Some (JStr ''Fix: bug/fix'')"
    and cs: "comments sample_issue = Some ([] @ sample_comment # [])"
    and n: "snd (write_comments []) = None"
    by (simp_all add: sample_issue_def)
  have f: "(253402300799999::int) < 253402300800000"
    and fc: "comment_created ?far = Some (JInt 253402300800000)"
    by simp_all
  have w: "fst (write_comment sample_comment)
       = newline @ newline @ ''---'' @ newline @ ''---'' @ newline
         @ ''Comment by Ann at 2023-11-14T22:13:20+00:00'' @ newline
         @ ''Deleted: False'' @ newline @ ''Reactions:'' @ newline
         @ ''    Bob: yes'' @ newline @ newline @ ''Done'' @ newline"
    by code_simp
  note th = comment_timestamp_iso8601 [where ms = 1700000000000 and c = sample_comment
      and author = "JStr ''Ann''" and ts = "''2023-11-14T22:13:20+00:00''"
      and issue = sample_issue and s = "JStr ''Fix: bug/fix''" and before = "[]"
      and after = "[]" and issue_id = "JStr ''DR-7''"]
  note far = comment_timestamp_iso8601 [where ms = 253402300800000 and c = ?far]
  from th have t: "comment_timestamp (JInt 1700000000000) = Inr ''2023-11-14T22:13:20+00:00''"
    by blast
  from th r c a have 1: "\<exists>y m d hh mm ss rest.
          fst (write_comment sample_comment)
            = newline @ newline @ ''---'' @ newline @ ''---'' @ newline
              @ ''Comment by '' @ py_str (JStr ''Ann'') @ '' at '' @ iso_fields y m d hh mm ss
              @ newline @ rest
        \<and> 1 \<le> y \<and> y \<le> 9999 \<and> 1 \<le> m \<and> m \<le> 12 \<and> 1 \<le> d \<and> d \<le> days_in_month y m
        \<and> 0 \<le> hh \<and> hh < 24 \<and> 0 \<le> mm \<and> mm < 60 \<and> 0 \<le> ss \<and> ss < 60
        \<and> (((ymd2ord y m d - ymd2ord 1970 1 1) * 24 + hh) * 60 + mm) * 60 + ss
            = 1700000000000 div 1000"
    by blast
  from th s cs n c a t have 2: "\<exists>pre post.
          fst (write_content (JStr ''DR-7'') sample_issue)
            = pre @ newline @ ''# Comments'' @ fst (write_comments [])
              @ newline @ newline @ ''---'' @ newline @ ''---'' @ newline
              @ ''Comment by '' @ py_str (JStr ''Ann'') @ '' at '' @ ''2023-11-14T22:13:20+00:00''
              @ newline @ post"
    by blast
  from far fc f have 3: "write_comment ?far = ([], Some ValueError)"
    by blast
  from r c a t 1 w s cs n 2 f 3 show ?thesis
    by blast
qed

section \<open>Facts about the file system\<close>

lemma node_at_emit [simp]: "node_at (emit e w) p = node_at w p"
  by (simp add: node_at_def emit_def)

lemma os_path_exists_emit [simp]: "os_path_exists (emit e w) p = os_path_exists w p"
  unfolding os_path_exists_def by simp

lemma os_path_isdir_emit [simp]: "os_path_isdir (emit e w) p = os_path_isdir w p"
  unfolding os_path_isdir_def by simp

lemma parent_fault_emit [simp]: "parent_fault (emit e w) p = parent_fault w p"
  unfolding parent_fault_def Let_def by simp

lemma open_fault_emit [simp]: "open_fault (emit e w) p = open_fault w p"
  unfolding open_fault_def by simp

lemma trace_emit [simp]: "trace (emit e w) = trace w @ [e]"
  by (simp add: emit_def)

lemma files_emit [simp]: "files (emit e w) = files w"
  by (simp add: emit_def)

lemma extends_refl [simp]: "extends w w"
  by (simp add: extends_def)

lemma extends_trans:
  assumes "extends w w'" and "extends w' w''"
  shows "extends w w''"
proof -
  from assms obtain es es' where "trace w' = trace w @ es" "trace w'' = trace w' @ es'"
    unfolding extends_def by blast
  then have "trace w'' = trace w @ (es @ es')"
    by simp
  then have "\<exists>es. trace w'' = trace w @ es" ..
  with assms show ?thesis
    unfolding extends_def by blast
qed

lemma extends_emit [simp]: "extends w (emit e w)"
  by (simp add: extends_def)

lemma extends_emit_left: "extends (emit e w) w' \<Longrightarrow> extends w w'"
  using extends_trans [OF extends_emit] by blast

lemma extends_exists: "extends w w' \<Longrightarrow> os_path_exists w p \<Longrightarrow> os_path_exists w' p"
  by (simp add: extends_def)

lemma extends_isdir: "extends w w' \<Longrightarrow> node_at w p = Some Dir \<Longrightarrow> node_at w' p = Some Dir"
  by (simp add: extends_def)

lemma node_at_put:
  "node_at (w\<lparr>files := (files w)(name \<mapsto> n)\<rparr>) p
     = (if p \<noteq> [] \<and> all_slashes p then Some Dir else if p = name then Some n else node_at w p)"
  by (simp add: node_at_def)

lemma extends_put_dir: "extends w (w\<lparr>files := (files w)(name \<mapsto> Dir)\<rparr>)"
  by (auto simp: extends_def os_path_exists_def node_at_put)

lemma extends_put_file:
  "node_at w path \<noteq> Some Dir \<Longrightarrow> extends w (w\<lparr>files := (files w)(path \<mapsto> File s)\<rparr>)"
  by (auto simp: extends_def os_path_exists_def node_at_put)

lemma os_mkdir_cases:
  "os_mkdir w name = (r, w') \<Longrightarrow>
     (r \<noteq> None \<and> w' = w)
     \<or> (r = None \<and> node_at w name = None
         \<and> w' = emit (MadeDir name) (w\<lparr>files := (files w)(name \<mapsto> Dir)\<rparr>))"
  unfolding os_mkdir_def by (cases "parent_fault w name") (auto split: if_splits)

lemma os_mkdir_extends: "os_mkdir w name = (r, w') \<Longrightarrow> extends w w'"
  using extends_trans [OF extends_put_dir [of w name]
      extends_emit [of "w\<lparr>files := (files w)(name \<mapsto> Dir)\<rparr>" "MadeDir name"]]
  by (auto dest!: os_mkdir_cases)

lemma os_mkdir_isdir: "os_mkdir w name = (None, w') \<Longrightarrow> node_at w' name = Some Dir"
  by (auto dest!: os_mkdir_cases simp: node_at_put)

lemma mkdir_exist_ok_cases:
  "mkdir_exist_ok w name exist_ok = (r, w') \<Longrightarrow>
     os_mkdir w name = (r, w')
     \<or> (r = None \<and> w' = w \<and> exist_ok \<and> os_path_isdir w name)"
proof -
  assume a: "mkdir_exist_ok w name exist_ok = (r, w')"
  obtain r1 w1 where m: "os_mkdir w name = (r1, w1)"
    by (cases "os_mkdir w name")
  show ?thesis
  proof (cases r1)
    case None
    with a m show ?thesis by (simp add: mkdir_exist_ok_def)
  next
    case (Some e)
    with m have "w1 = w" by (auto dest!: os_mkdir_cases)
    with a m Some show ?thesis
      by (simp add: mkdir_exist_ok_def split: if_splits)
  qed
qed

lemma mkdir_exist_ok_extends: "mkdir_exist_ok w name exist_ok = (r, w') \<Longrightarrow> extends w w'"
  by (auto dest!: mkdir_exist_ok_cases dest: os_mkdir_extends)

lemma mkdir_exist_ok_isdir:
  "mkdir_exist_ok w name exist_ok = (None, w') \<Longrightarrow> node_at w' name = Some Dir"
  by (auto dest!: mkdir_exist_ok_cases dest: os_mkdir_isdir simp: os_path_isdir_def)

lemma makedirs_cases:
  assumes "makedirs w name exist_ok = (r, w')"
  shows "mkdir_exist_ok w name exist_ok = (r, w')
    \<or> (\<exists>r1 w1. fst (makedirs_split name) \<noteq> [] \<and> snd (makedirs_split name) \<noteq> []
          \<and> \<not> os_path_exists w (fst (makedirs_split name))
          \<and> makedirs w (fst (makedirs_split name)) exist_ok = (r1, w1)
          \<and> ((r, w') = (r1, w1) \<and> r1 \<noteq> None
             \<or> snd (makedirs_split name) = ''.'' \<and> (r, w') = (None, w1)
             \<or> snd (makedirs_split name) \<noteq> ''.'' \<and> mkdir_exist_ok w1 name exist_ok = (r, w')))"
proof (cases "fst (makedirs_split name) \<noteq> [] \<and> snd (makedirs_split name) \<noteq> []
          \<and> \<not> os_path_exists w (fst (makedirs_split name))")
  case False
  with assms have "mkdir_exist_ok w name exist_ok = (r, w')"
    by (subst (asm) makedirs.simps) (simp add: Let_def)
  then show ?thesis ..
next
  case True
  obtain r1 w1 where m: "makedirs w (fst (makedirs_split name)) exist_ok = (r1, w1)"
    by (cases "makedirs w (fst (makedirs_split name)) exist_ok")
  from assms True
  have "(case makedirs w (fst (makedirs_split name)) exist_ok of
           (Some e, w') \<Rightarrow>
             if e \<noteq> FileExistsError then (Some e, w')
             else if snd (makedirs_split name) = ''.'' then (None, w')
             else mkdir_exist_ok w' name exist_ok
         | (None, w') \<Rightarrow>
             if snd (makedirs_split name) = ''.'' then (None, w')
             else mkdir_exist_ok w' name exist_ok) = (r, w')"
    by (subst (asm) makedirs.simps) (simp add: Let_def)
  then have "(r, w') = (r1, w1) \<and> r1 \<noteq> None
             \<or> snd (makedirs_split name) = ''.'' \<and> (r, w') = (None, w1)
             \<or> snd (makedirs_split name) \<noteq> ''.'' \<and> mkdir_exist_ok w1 name exist_ok = (r, w')"
    unfolding m by (cases r1) (auto split: if_splits)
  with True m show ?thesis
    by blast
qed

lemma makedirs_extends: "makedirs w name exist_ok = (r, w') \<Longrightarrow> extends w w'"
proof (induction w name exist_ok arbitrary: r w' rule: makedirs.induct)
  case (1 w name exist_ok)
  from makedirs_cases [OF "1.prems"] show ?case
  proof (elim disjE exE conjE)
    assume "mkdir_exist_ok w name exist_ok = (r, w')"
    then show ?thesis by (rule mkdir_exist_ok_extends)
  next
    fix r1 w1
    assume c: "fst (makedirs_split name) \<noteq> []" "snd (makedirs_split name) \<noteq> []"
      "\<not> os_path_exists w (fst (makedirs_split name))"
      and m: "makedirs w (fst (makedirs_split name)) exist_ok = (r1, w1)"
    from "1.IH" [OF refl refl _ m] c have e: "extends w w1"
      by simp
    {
      assume "(r, w') = (r1, w1)"
      with e show ?thesis by simp
    next
      assume "(r, w') = (None, w1)"
      with e show ?thesis by simp
    next
      assume "mkdir_exist_ok w1 name exist_ok = (r, w')"
      with e show ?thesis
        by (blast intro: extends_trans dest: mkdir_exist_ok_extends)
    }
  qed
qed

lemma makedirs_isdir:
  assumes "makedirs w name exist_ok = (None, w')" and "snd (makedirs_split name) \<noteq> ''.''"
  shows "node_at w' name = Some Dir"
  using makedirs_cases [OF assms(1)] assms(2)
  by (auto dest: mkdir_exist_ok_isdir)


section \<open>The shape of a target path\<close>

lemma takeWhile_no_slash:
  "CHR ''/'' \<notin> set c \<Longrightarrow>
     takeWhile (\<lambda>x. x \<noteq> CHR ''/'') (c @ ys) = c @ takeWhile (\<lambda>x. x \<noteq> CHR ''/'') ys"
  by (induction c) auto

lemma split_tail_hyphen:
  assumes "CHR ''/'' \<notin> set c"
  shows "CHR ''-'' \<in> set (snd (os_path_split (q @ ''-'' @ c)))"
  using assms takeWhile_no_slash [of "rev c" "CHR ''-'' # rev q"]
  by (simp add: os_path_split_def Let_def)

lemma clean_no_slash: "CHR ''/'' \<notin> set (clean_folder_name_default s)"
  using clean_folder_name_default_chars(1) [of s] by (auto simp: invalid_chars_def)

lemma target_path_decomposed:
  "\<exists>q. issue_target_path short num s = q @ ''-'' @ clean_folder_name_default s"
proof -
  let ?x = "py_str short @ ''-'' @ zfill (py_str num) ID_PAD_LENGTH"
  have "issue_target_path short num s = ?x @ ''-'' @ clean_folder_name_default s
      \<or> issue_target_path short num s = (''exports'' @ ?x) @ ''-'' @ clean_folder_name_default s
      \<or> issue_target_path short num s = (''exports/'' @ ?x) @ ''-'' @ clean_folder_name_default s"
    by (simp add: issue_target_path_def os_path_join_def)
  then show ?thesis by blast
qed

lemma target_path_shape:
  "issue_target_path short num s \<noteq> []"
  "last (issue_target_path short num s) \<noteq> CHR ''/''"
  "CHR ''-'' \<in> set (snd (os_path_split (issue_target_path short num s)))"
proof -
  obtain q where q: "issue_target_path short num s = q @ ''-'' @ clean_folder_name_default s"
    using target_path_decomposed by blast
  show "issue_target_path short num s \<noteq> []"
    unfolding q by simp
  show "last (issue_target_path short num s) \<noteq> CHR ''/''"
    unfolding q using clean_no_slash [of s]
    by (cases "clean_folder_name_default s" rule: rev_cases) auto
  show "CHR ''-'' \<in> set (snd (os_path_split (issue_target_path short num s)))"
    unfolding q by (rule split_tail_hyphen) (rule clean_no_slash)
qed

lemma target_path_split:
  "makedirs_split (issue_target_path short num s) = os_path_split (issue_target_path short num s)"
  "snd (makedirs_split (issue_target_path short num s)) \<noteq> ''.''"
  "snd (os_path_split (issue_target_path short num s)) \<noteq> []"
proof -
  from target_path_shape(3) [of short num s]
  show t: "snd (os_path_split (issue_target_path short num s)) \<noteq> []"
    by auto
  then show m: "makedirs_split (issue_target_path short num s)
      = os_path_split (issue_target_path short num s)"
    by (simp add: makedirs_split_def split_def)
  from target_path_shape(3) [of short num s]
  show "snd (makedirs_split (issue_target_path short num s)) \<noteq> ''.''"
    unfolding m by auto
qed

lemma os_path_join_file:
  assumes "p \<noteq> []" "last p \<noteq> CHR ''/''" "name \<noteq> []" "CHR ''/'' \<notin> set name"
  shows "os_path_join p name = p @ ''/'' @ name"
    and "os_path_split (p @ ''/'' @ name) = (p, name)"
proof -
  from assms(3,4) have "\<not> startswith name ''/''"
    by (cases name) (auto simp: startswith_def)
  moreover from assms(1,2) have "\<not> endswith p ''/''"
    by (simp add: endswith_last)
  ultimately show "os_path_join p name = p @ ''/'' @ name"
    using assms(1) by (simp add: os_path_join_def)
  have t: "takeWhile (\<lambda>x. x \<noteq> CHR ''/'') (rev (p @ ''/'' @ name)) = rev name"
    using assms(4) takeWhile_no_slash [of "rev name" "CHR ''/'' # rev p"] by simp
  from assms(1,2) have d: "dropWhile (\<lambda>c. c = CHR ''/'') (rev p) = rev p"
    by (cases p rule: rev_cases) auto
  from assms(1,2) have n: "\<not> all_slashes (p @ ''/'')"
    by (cases p rule: rev_cases) (auto simp: all_slashes_def)
  show "os_path_split (p @ ''/'' @ name) = (p, name)"
    unfolding os_path_split_def Let_def t
    using n d by (simp add: rstrip_slashes_def)
qed

section \<open>Facts about writing files and downloading attachments\<close>

lemma open_fault_not_dir: "open_fault w p = None \<Longrightarrow> node_at w p \<noteq> Some Dir"
  by (auto simp: open_fault_def split: if_splits)

lemma write_file_extends: "open_fault w p = None \<Longrightarrow> extends w (write_file w p s)"
  unfolding write_file_def
  using extends_trans [OF extends_put_file [of w p s]
      extends_emit [of "w\<lparr>files := (files w)(p \<mapsto> File s)\<rparr>" "Wrote p s"]]
  by (auto dest: open_fault_not_dir)

lemma trace_write_file [simp]: "trace (write_file w p s) = trace w @ [Wrote p s]"
  by (simp add: write_file_def)

lemma files_write_file [simp]: "files (write_file w p s) = (files w)(p \<mapsto> File s)"
  by (simp add: write_file_def)

lemma concat_iter_content: "0 < n \<Longrightarrow> concat (iter_content n body) = body"
proof (induction n body rule: iter_content.induct)
  case (1 n body)
  then show ?case
    by (subst iter_content.simps) auto
qed

lemma new_events_append: "trace w' = trace w @ es \<Longrightarrow> new_events w w' = es"
  by (simp add: new_events_def)

lemma download_attachments_failed_fetch:
  assumes "attachment_url a = Some (JStr url)"
    and "tracker (attachment_request authorization url) = Inr response"
    and "resp_status_code response \<noteq> 200"
  shows "download_attachments tracker (a # rest) issue_id authorization w
       = download_attachments tracker rest issue_id authorization
           (emit (Requested (attachment_request authorization url)) w)"
  using assms by (simp add: Let_def)

lemma download_attachments_step:
  assumes "download_attachments tracker (a # rest) issue_id authorization w = (r, w')"
  shows "(r \<noteq> None \<and> (w' = w \<or> (\<exists>url. w' = emit (Requested (attachment_request authorization url)) w)))
       \<or> (\<exists>url. download_attachments tracker rest issue_id authorization
                   (emit (Requested (attachment_request authorization url)) w) = (r, w'))
       \<or> (\<exists>url path content.
             fetched_ok tracker authorization issue_id a path content
             \<and> open_fault (emit (Requested (attachment_request authorization url)) w) path = None
             \<and> download_attachments tracker rest issue_id authorization
                   (write_file (emit (Requested (attachment_request authorization url)) w)
                      path content) = (r, w'))"
proof (cases "attachment_url a")
  case None
  with assms show ?thesis by auto
next
  case (Some u)
  show ?thesis
  proof (cases u)
    case (JStr url)
    let ?w1 = "emit (Requested (attachment_request authorization url)) w"
    show ?thesis
    proof (cases "tracker (attachment_request authorization url)")
      case (Inl e)
      with assms Some JStr show ?thesis by (auto simp: Let_def)
    next
      case (Inr response)
      show ?thesis
      proof (cases "resp_status_code response = 200")
        case False
        with assms Some JStr Inr show ?thesis by (auto simp: Let_def)
      next
        case True
        show ?thesis
        proof (cases "attachment_name a")
          case None
          with assms Some JStr Inr True show ?thesis by (auto simp: Let_def)
        next
          case n: (Some nm)
          show ?thesis
          proof (cases nm)
            case name: (JStr name)
            let ?p = "os_path_join issue_id name"
            have f: "fetched_ok tracker authorization issue_id a ?p (resp_content response)"
              using Some JStr Inr True n name by (simp add: fetched_ok_def)
            show ?thesis
            proof (cases "open_fault ?w1 ?p")
              case None
              with assms Some JStr Inr True n name
              have "download_attachments tracker rest issue_id authorization
                      (write_file ?w1 ?p (resp_content response)) = (r, w')"
                by (simp add: Let_def concat_iter_content)
              with f None show ?thesis by blast
            next
              case (Some e)
              with assms \<open>attachment_url a = Some u\<close> JStr Inr True n name show ?thesis
                by (auto simp: Let_def)
            qed
          qed (use assms Some JStr Inr True n in \<open>auto simp: Let_def\<close>)
        qed
      qed
    qed
  qed (use assms Some in \<open>auto simp: Let_def\<close>)
qed

lemma download_attachments_effects:
  assumes "download_attachments tracker as issue_id authorization w = (r, w')"
  shows "extends w w' \<and>
     (\<exists>es. trace w' = trace w @ es
        \<and> (\<forall>path content. Wrote path content \<in> set es \<longrightarrow>
              (\<exists>a\<in>set as. fetched_ok tracker authorization issue_id a path content))
        \<and> (\<forall>d. MadeDir d \<notin> set es))"
  using assms
proof (induction as arbitrary: w)
  case Nil
  then show ?case by simp
next
  case (Cons a rest)
  from download_attachments_step [OF Cons.prems] show ?case
  proof (elim disjE exE conjE)
    assume "w' = w"
    then show ?thesis by simp
  next
    fix url assume "w' = emit (Requested (attachment_request authorization url)) w"
    then show ?thesis by simp
  next
    fix url
    let ?w1 = "emit (Requested (attachment_request authorization url)) w"
    assume "download_attachments tracker rest issue_id authorization ?w1 = (r, w')"
    from Cons.IH [OF this] obtain es where e: "extends ?w1 w'" and t: "trace w' = trace ?w1 @ es"
      and wr: "\<forall>path content. Wrote path content \<in> set es \<longrightarrow>
              (\<exists>a\<in>set rest. fetched_ok tracker authorization issue_id a path content)"
      and md: "\<forall>d. MadeDir d \<notin> set es"
      by blast
    from t have "trace w' = trace w @ (Requested (attachment_request authorization url) # es)"
      by simp
    moreover from wr have "\<forall>path content.
        Wrote path content \<in> set (Requested (attachment_request authorization url) # es) \<longrightarrow>
        (\<exists>a\<in>set (a # rest). fetched_ok tracker authorization issue_id a path content)"
      by auto
    moreover from md have "\<forall>d. MadeDir d \<notin> set (Requested (attachment_request authorization url) # es)"
      by auto
    ultimately show ?thesis
      using extends_emit_left [OF e] by blast
  next
    fix url p c
    let ?w1 = "emit (Requested (attachment_request authorization url)) w"
    let ?w2 = "write_file ?w1 p c"
    assume f: "fetched_ok tracker authorization issue_id a p c"
      and o: "open_fault ?w1 p = None"
      and d: "download_attachments tracker rest issue_id authorization ?w2 = (r, w')"
    from Cons.IH [OF d] obtain es where e: "extends ?w2 w'" and t: "trace w' = trace ?w2 @ es"
      and wr: "\<forall>path content. Wrote path content \<in> set es \<longrightarrow>
              (\<exists>a\<in>set rest. fetched_ok tracker authorization issue_id a path content)"
      and md: "\<forall>d. MadeDir d \<notin> set es"
      by blast
    let ?es = "Requested (attachment_request authorization url) # Wrote p c # es"
    from t have "trace w' = trace w @ ?es"
      by simp
    moreover from wr f have "\<forall>path content. Wrote path content \<in> set ?es \<longrightarrow>
        (\<exists>a\<in>set (a # rest). fetched_ok tracker authorization issue_id a path content)"
      by auto
    moreover from md have "\<forall>d. MadeDir d \<notin> set ?es"
      by auto
    moreover have "extends w w'"
      using extends_trans [OF extends_trans [OF extends_emit write_file_extends [OF o]] e] .
    ultimately show ?thesis
      by blast
  qed
qed

lemma download_attachments_extends:
  "download_attachments tracker as issue_id authorization w = (r, w') \<Longrightarrow> extends w w'"
  using download_attachments_effects by blast


section \<open>Facts about the export of one issue\<close>

lemma content_path:
  "os_path_join (issue_target_path short num s) ''content.txt''
     = issue_target_path short num s @ ''/content.txt''"
  "os_path_split (issue_target_path short num s @ ''/content.txt'')
     = (issue_target_path short num s, ''content.txt'')"
  using os_path_join_file [of "issue_target_path short num s" "''content.txt''"]
    target_path_shape(1,2) [of short num s]
  by simp_all


lemma issue_path_cases:
  "issue_path issue = Inr (issue_id, path) \<Longrightarrow>
     \<exists>short num s. idReadable issue = Some issue_id \<and> summary issue = Some (JStr s)
       \<and> numberInProject issue = Some num \<and> project_shortName issue = Some short
       \<and> path = issue_target_path short num s"
  by (auto simp: issue_path_def split: option.splits jval.splits)

lemma export_issue_effects:
  assumes "export_issue tracker authorization issue issue_id path w = (r, w')"
    and "path = issue_target_path short num s"
  shows "extends w w'" and "r = None \<Longrightarrow> os_path_exists w' path"
proof -
  let ?w0 = "emit (Printed (processing_message path)) w"
  obtain r1 w1 where m: "makedirs ?w0 path True = (r1, w1)"
    by (cases "makedirs ?w0 path True")
  have e1: "extends w w1"
    using extends_emit_left [OF makedirs_extends [OF m]] .
  let ?cp = "os_path_join path ''content.txt''"
  let ?w2 = "write_file w1 ?cp (fst (write_content issue_id issue))"
  have "extends w w' \<and> (r = None \<longrightarrow> os_path_exists w' path)"
  proof (cases r1)
    case (Some e)
    with assms(1) m e1 show ?thesis
      by (auto simp: export_issue_def)
  next
    case None
    with m assms(2) have d: "node_at w1 path = Some Dir"
      using makedirs_isdir target_path_split(2) by blast
    show ?thesis
    proof (cases "open_fault w1 ?cp")
      case (Some e)
      with assms(1) m None e1 show ?thesis
        by (auto simp: export_issue_def Let_def)
    next
      case o: None
      have e2: "extends w ?w2"
        using extends_trans [OF e1 write_file_extends [OF o]] .
      from d have x2: "os_path_exists ?w2 path"
        using extends_isdir [OF write_file_extends [OF o]] by (simp add: os_path_exists_def)
      show ?thesis
      proof (cases "snd (write_content issue_id issue)")
        case (Some e)
        with assms(1) m None o e2 show ?thesis
          by (auto simp: export_issue_def Let_def)
      next
        case c: None
        show ?thesis
        proof (cases "\<exists>a rest. attachments issue = Some (a # rest)")
          case False
          with assms(1) m None o c have "(r, w') = (None, ?w2)"
            by (auto simp: export_issue_def Let_def split: option.splits list.splits)
          with e2 x2 show ?thesis by simp
        next
          case True
          then obtain a rest where "attachments issue = Some (a # rest)" by blast
          with assms(1) m None o c
          have "download_attachments tracker (a # rest) path authorization ?w2 = (r, w')"
            by (simp add: export_issue_def Let_def)
          from download_attachments_extends [OF this] e2 x2 show ?thesis
            by (blast intro: extends_trans extends_exists)
        qed
      qed
    qed
  qed
  then show "extends w w'" and "r = None \<Longrightarrow> os_path_exists w' path"
    by blast+
qed

lemma process_issue_effects:
  assumes "process_issue tracker authorization full_refresh issue w = (r, w')"
  shows "extends w w'"
    and "r = None \<Longrightarrow> \<exists>issue_id path. issue_path issue = Inr (issue_id, path) \<and> os_path_exists w' path"
proof -
  have "extends w w' \<and> (r = None \<longrightarrow>
      (\<exists>issue_id path. issue_path issue = Inr (issue_id, path) \<and> os_path_exists w' path))"
  proof (cases "issue_path issue")
    case (Inl e)
    with assms show ?thesis by (auto simp: process_issue_def)
  next
    case (Inr ip)
    obtain issue_id path where ip: "ip = (issue_id, path)" by (cases ip)
    from Inr ip obtain short num s where p: "path = issue_target_path short num s"
      using issue_path_cases by blast
    show ?thesis
    proof (cases "\<not> full_refresh \<and> os_path_exists w path")
      case True
      with assms Inr ip show ?thesis
        by (auto simp: process_issue_def)
    next
      case False
      with assms Inr ip
      have "export_issue tracker authorization issue issue_id path w = (r, w')"
        by (auto simp: process_issue_def)
      from export_issue_effects [OF this p] Inr ip show ?thesis
        by blast
    qed
  qed
  then show "extends w w'"
    and "r = None \<Longrightarrow> \<exists>issue_id path. issue_path issue = Inr (issue_id, path) \<and> os_path_exists w' path"
    by blast+
qed

lemma process_issues_effects:
  assumes "process_issues tracker authorization full_refresh issues w = (r, w')"
  shows "extends w w' \<and> (r = None \<longrightarrow>
      (\<forall>issue\<in>set issues. \<exists>issue_id path.
          issue_path issue = Inr (issue_id, path) \<and> os_path_exists w' path))"
  using assms
proof (induction issues arbitrary: w)
  case Nil
  then show ?case by simp
next
  case (Cons issue rest)
  obtain r1 w1 where p: "process_issue tracker authorization full_refresh issue w = (r1, w1)"
    by (cases "process_issue tracker authorization full_refresh issue w")
  show ?case
  proof (cases r1)
    case (Some e)
    with Cons.prems p process_issue_effects(1) [OF p] show ?thesis
      by auto
  next
    case None
    with Cons.prems p
    have rest: "process_issues tracker authorization full_refresh rest w1 = (r, w')"
      by simp
    from Cons.IH [OF rest] have e: "extends w1 w'"
      and a: "r = None \<longrightarrow> (\<forall>issue\<in>set rest. \<exists>issue_id path.
          issue_path issue = Inr (issue_id, path) \<and> os_path_exists w' path)"
      by blast+
    from process_issue_effects(2) [OF p] None obtain issue_id path
      where "issue_path issue = Inr (issue_id, path)" "os_path_exists w1 path"
      by blast
    with e have "\<exists>issue_id path. issue_path issue = Inr (issue_id, path) \<and> os_path_exists w' path"
      by (blast intro: extends_exists)
    with a e process_issue_effects(1) [OF p] show ?thesis
      by (auto intro: extends_trans)
  qed
qed

lemma process_issue_skip:
  assumes "issue_path issue = Inr (issue_id, path)" and "os_path_exists w path"
  shows "process_issue tracker authorization False issue w
       = (None, emit (Printed (skip_message path)) w)"
  using assms by (simp add: process_issue_def)

lemma process_issues_all_skipped:
  assumes "\<forall>issue\<in>set issues. \<exists>issue_id path.
          issue_path issue = Inr (issue_id, path) \<and> os_path_exists w path"
  shows "\<exists>paths. list_all2 (\<lambda>issue path. \<exists>issue_id. issue_path issue = Inr (issue_id, path))
                  issues paths
     \<and> process_issues tracker authorization False issues w
         = (None, w\<lparr>trace := trace w @ map (\<lambda>path. Printed (skip_message path)) paths\<rparr>)"
  using assms
proof (induction issues arbitrary: w)
  case Nil
  then show ?case by simp
next
  case (Cons issue rest)
  then obtain issue_id path where i: "issue_path issue = Inr (issue_id, path)"
    and x: "os_path_exists w path"
    by auto
  let ?w1 = "emit (Printed (skip_message path)) w"
  from Cons.prems have "\<forall>issue\<in>set rest. \<exists>issue_id path.
          issue_path issue = Inr (issue_id, path) \<and> os_path_exists ?w1 path"
    by simp
  from Cons.IH [OF this] obtain paths
    where l: "list_all2 (\<lambda>issue path. \<exists>issue_id. issue_path issue = Inr (issue_id, path)) rest paths"
      and r: "process_issues tracker authorization False rest ?w1
         = (None, ?w1\<lparr>trace := trace ?w1 @ map (\<lambda>path. Printed (skip_message path)) paths\<rparr>)"
    by blast
  from l i have "list_all2 (\<lambda>issue path. \<exists>issue_id. issue_path issue = Inr (issue_id, path))
      (issue # rest) (path # paths)"
    by simp
  moreover from r have "process_issues tracker authorization False (issue # rest) w
     = (None, w\<lparr>trace := trace w @ map (\<lambda>path. Printed (skip_message path)) (path # paths)\<rparr>)"
    by (simp add: process_issue_skip [OF i x] emit_def)
  ultimately show ?case
    by blast
qed

section \<open>The claims about \<^verbatim>\<open>download_attachments\<close> and \<^verbatim>\<open>get_issues\<close>\<close>

text \<open>
  Claim C5. In \<^verbatim>\<open>download_attachments\<close>, an attachment whose download answers with another
  status than 200 changes nothing but the record of the request: the loop goes on with the
  remaining attachments from the same file system, with no exception. Over the whole
  loop, every file written is that of an attachment whose download answered with 200, no
  directory is created, and whatever existed before the call (the folder of the issue
  and its content file among it) still exists afterwards, directories as directories.
\<close>

theorem failed_attachment_is_skipped:
  "(attachment_url a = Some (JStr url)
      \<and> tracker (attachment_request authorization url) = Inr response
      \<and> resp_status_code response \<noteq> 200 \<longrightarrow>
      download_attachments tracker (a # rest) issue_id authorization w
        = download_attachments tracker rest issue_id authorization
            (emit (Requested (attachment_request authorization url)) w))
   \<and> (download_attachments tracker as issue_id authorization w = (r, w') \<longrightarrow>
        (\<forall>path content. Wrote path content \<in> set (new_events w w') \<longrightarrow>
           (\<exists>a\<in>set as. fetched_ok tracker authorization issue_id a path content))
        \<and> (\<forall>d. MadeDir d \<notin> set (new_events w w'))
        \<and> (\<forall>p. os_path_exists w p \<longrightarrow> os_path_exists w' p)
        \<and> (\<forall>p. node_at w p = Some Dir \<longrightarrow> node_at w' p = Some Dir))"
proof (intro conjI impI)
  assume "attachment_url a = Some (JStr url)
      \<and> tracker (attachment_request authorization url) = Inr response
      \<and> resp_status_code response \<noteq> 200"
  then have "attachment_url a = Some (JStr url)"
    "tracker (attachment_request authorization url) = Inr response"
    "resp_status_code response \<noteq> 200"
    by blast+
  then show "download_attachments tracker (a # rest) issue_id authorization w
        = download_attachments tracker rest issue_id authorization
            (emit (Requested (attachment_request authorization url)) w)"
    by (rule download_attachments_failed_fetch)
next
  assume d: "download_attachments tracker as issue_id authorization w = (r, w')"
  from download_attachments_effects [OF d] obtain es where e: "extends w w'"
    and t: "trace w' = trace w @ es"
    and wr: "\<forall>path content. Wrote path content \<in> set es \<longrightarrow>
              (\<exists>a\<in>set as. fetched_ok tracker authorization issue_id a path content)"
    and md: "\<forall>d. MadeDir d \<notin> set es"
    by blast
  from t have n: "new_events w w' = es"
    by (rule new_events_append)
  from wr show "\<forall>path content. Wrote path content \<in> set (new_events w w') \<longrightarrow>
           (\<exists>a\<in>set as. fetched_ok tracker authorization issue_id a path content)"
    unfolding n .
  from md show "\<forall>d. MadeDir d \<notin> set (new_events w w')"
    unfolding n .
  from e show "\<forall>p. os_path_exists w p \<longrightarrow> os_path_exists w' p"
    by (simp add: extends_def)
  from e show "\<forall>p. node_at w p = Some Dir \<longrightarrow> node_at w' p = Some Dir"
    by (simp add: extends_def)
qed

text \<open>
  The first sample attachment answers with 404, the second with 200: only the second is
  written, next to the content file.
\<close>

theorem failed_attachment_is_skipped_witness:
  "attachment_url sample_attachment_gone = Some (JStr ''/api/files/1'')
   \<and> (\<exists>response. sample_tracker (attachment_request ''Bearer t'' ''/api/files/1'') = Inr response
         \<and> resp_status_code response = 404)
   \<and> download_attachments sample_tracker [sample_attachment_gone, sample_attachment_log]
        ''exports/DR-007-Fix_bugfix'' ''Bearer t'' sample_folder_world
      = download_attachments sample_tracker [sample_attachment_log]
          ''exports/DR-007-Fix_bugfix'' ''Bearer t''
          (emit (Requested (attachment_request ''Bearer t'' ''/api/files/1'')) sample_folder_world)
   \<and> Wrote ''exports/DR-007-Fix_bugfix/log.txt'' ''hello''
        \<in> set (new_events sample_folder_world
                 (snd (download_attachments sample_tracker
                    [sample_attachment_gone, sample_attachment_log]
                    ''exports/DR-007-Fix_bugfix'' ''Bearer t'' sample_folder_world)))
   \<and> (\<exists>a\<in>set [sample_attachment_gone, sample_attachment_log].
         fetched_ok sample_tracker ''Bearer t'' ''exports/DR-007-Fix_bugfix'' a
           ''exports/DR-007-Fix_bugfix/log.txt'' ''hello'')
   \<and> os_path_exists sample_folder_world ''exports/DR-007-Fix_bugfix/content.txt''
   \<and> os_path_exists
         (snd (download_attachments sample_tracker
                 [sample_attachment_gone, sample_attachment_log]
                 ''exports/DR-007-Fix_bugfix'' ''Bearer t'' sample_folder_world))
         ''exports/DR-007-Fix_bugfix/content.txt''"
proof -
  let ?as = "[sample_attachment_gone, sample_attachment_log]"
  let ?D = "download_attachments sample_tracker ?as ''exports/DR-007-Fix_bugfix'' ''Bearer t''
              sample_folder_world"
  let ?resp = "\<lparr>resp_status_code = 404, resp_text = ''Not Found'', resp_content = ''Not Found'',
                resp_json = Inl ValueError\<rparr>"
  have u: "attachment_url sample_attachment_gone = Some (JStr ''/api/files/1'')"
    by (simp add: sample_attachment_gone_def)
  have t: "sample_tracker (attachment_request ''Bearer t'' ''/api/files/1'') = Inr ?resp"
    by (simp add: sample_tracker_def attachment_request_def BASE_YOUTRACK_URL_def)
  have s: "resp_status_code ?resp \<noteq> 200" "resp_status_code ?resp = 404"
    by simp_all
  have d: "?D = (fst ?D, snd ?D)"
    by simp
  have m: "Wrote ''exports/DR-007-Fix_bugfix/log.txt'' ''hello''
             \<in> set (new_events sample_folder_world (snd ?D))"
    by code_simp
  have x: "os_path_exists sample_folder_world ''exports/DR-007-Fix_bugfix/content.txt''"
    by code_simp
  note th = failed_attachment_is_skipped [of sample_attachment_gone "''/api/files/1''"
      sample_tracker "''Bearer t''" ?resp "[sample_attachment_log]" "''exports/DR-007-Fix_bugfix''"
      sample_folder_world ?as "fst ?D" "snd ?D"]
  from th u t s(1) have a: "?D = download_attachments sample_tracker [sample_attachment_log]
          ''exports/DR-007-Fix_bugfix'' ''Bearer t''
          (emit (Requested (attachment_request ''Bearer t'' ''/api/files/1'')) sample_folder_world)"
    by blast
  from th d m have b: "\<exists>a\<in>set ?as.
         fetched_ok sample_tracker ''Bearer t'' ''exports/DR-007-Fix_bugfix'' a
           ''exports/DR-007-Fix_bugfix/log.txt'' ''hello''"
    by blast
  from th d x have c: "os_path_exists (snd ?D) ''exports/DR-007-Fix_bugfix/content.txt''"
    by blast
  from u t s(2) a m b x c show ?thesis
    by blast
qed

text \<open>
  Claim C2. When the request for the list of issues is answered with another status than
  200, \<^verbatim>\<open>get_issues\<close> returns without an exception, and all it has done is to send the
  request and to print \<^verbatim>\<open>Failed to fetch issues:\<close> with the body of the response: the
  file system is as it was, no directory was created and no file written.
\<close>

theorem failed_fetch_returns:
  "tracker (issues_request permanent_token project_id) = Inr response
     \<and> resp_status_code response \<noteq> 200 \<longrightarrow>
   get_issues tracker permanent_token project_id full_refresh w
     = (None, w\<lparr>trace := trace w @
                 [Requested (issues_request permanent_token project_id),
                  Printed (''Failed to fetch issues: '' @ resp_text response)]\<rparr>)"
  by (simp add: get_issues_def Let_def emit_def)

text \<open>A tracker that answers 403, and a file system that holds an earlier export.\<close>

theorem failed_fetch_returns_witness:
  "(\<exists>response. forbidden_tracker (issues_request ''t'' ''Data requests'') = Inr response
       \<and> resp_status_code response = 403 \<and> resp_text response = ''Forbidden'')
   \<and> get_issues forbidden_tracker ''t'' ''Data requests'' False sample_folder_world
       = (None, sample_folder_world\<lparr>trace :=
            [Requested (issues_request ''t'' ''Data requests''),
             Printed ''Failed to fetch issues: Forbidden'']\<rparr>)"
proof -
  let ?resp = "\<lparr>resp_status_code = 403, resp_text = ''Forbidden'', resp_content = ''Forbidden'',
           resp_json = Inl ValueError\<rparr>"
  have t: "forbidden_tracker (issues_request ''t'' ''Data requests'') = Inr ?resp"
    by (simp add: forbidden_tracker_def)
  have s: "resp_status_code ?resp \<noteq> 200" "resp_status_code ?resp = 403"
    "resp_text ?resp = ''Forbidden''" "trace sample_folder_world = []"
    by (simp_all add: sample_folder_world_def)
  from failed_fetch_returns [of forbidden_tracker "''t''" "''Data requests''" ?resp False
      sample_folder_world] t s(1)
  have "get_issues forbidden_tracker ''t'' ''Data requests'' False sample_folder_world
     = (None, sample_folder_world\<lparr>trace := trace sample_folder_world @
                 [Requested (issues_request ''t'' ''Data requests''),
                  Printed (''Failed to fetch issues: '' @ resp_text ?resp)]\<rparr>)"
    by blast
  with t s show ?thesis
    by simp
qed

text \<open>
  Claim C1. When the target path of an issue exists (as a directory, or as anything
  else) and \<^verbatim>\<open>full_refresh\<close> is false, the loop prints the skip message and goes on with
  the next issue from the same file system: no directory is created, no file written and
  no attachment requested for it. Consequently, when a run with \<^verbatim>\<open>full_refresh=False\<close>
  has returned, a second run against the same tracker sends the request for the list,
  prints one skip message for each issue, in order, and does nothing else.
\<close>

theorem existing_folder_is_skipped:
  "(issue_path issue = Inr (issue_id, path) \<and> os_path_exists w path \<longrightarrow>
      process_issues tracker authorization False (issue # rest) w
        = process_issues tracker authorization False rest (emit (Printed (skip_message path)) w))
   \<and> (tracker (issues_request permanent_token project_id) = Inr response
        \<and> resp_status_code response = 200 \<and> resp_json response = Inr issues
        \<and> get_issues tracker permanent_token project_id False w0 = (None, w1) \<longrightarrow>
      (\<exists>paths.
          list_all2 (\<lambda>issue path. \<exists>issue_id. issue_path issue = Inr (issue_id, path)) issues paths
        \<and> get_issues tracker permanent_token project_id False w1
            = (None, w1\<lparr>trace := trace w1 @
                 Requested (issues_request permanent_token project_id)
                 # map (\<lambda>path. Printed (skip_message path)) paths\<rparr>)))"
proof (intro conjI impI)
  assume "issue_path issue = Inr (issue_id, path) \<and> os_path_exists w path"
  then show "process_issues tracker authorization False (issue # rest) w
        = process_issues tracker authorization False rest (emit (Printed (skip_message path)) w)"
    by (simp add: process_issue_skip)
next
  let ?req = "Requested (issues_request permanent_token project_id)"
  let ?auth = "''Bearer '' @ permanent_token"
  assume a: "tracker (issues_request permanent_token project_id) = Inr response
        \<and> resp_status_code response = 200 \<and> resp_json response = Inr issues
        \<and> get_issues tracker permanent_token project_id False w0 = (None, w1)"
  then have run: "get_issues tracker permanent_token project_id False w
      = process_issues tracker ?auth False issues (emit ?req w)" for w
    by (simp add: get_issues_def Let_def)
  from a have "process_issues tracker ?auth False issues (emit ?req w0) = (None, w1)"
    unfolding run by simp
  from process_issues_effects [OF this]
  have "\<forall>issue\<in>set issues. \<exists>issue_id path.
          issue_path issue = Inr (issue_id, path) \<and> os_path_exists (emit ?req w1) path"
    by simp
  from process_issues_all_skipped [OF this, of tracker ?auth]
  show "\<exists>paths.
          list_all2 (\<lambda>issue path. \<exists>issue_id. issue_path issue = Inr (issue_id, path)) issues paths
        \<and> get_issues tracker permanent_token project_id False w1
            = (None, w1\<lparr>trace := trace w1 @ ?req # map (\<lambda>path. Printed (skip_message path)) paths\<rparr>)"
    unfolding run by (simp add: emit_def)
qed

text \<open>
  The sample issue is skipped when its folder is there, and the second run over the
  sample project, started from the state the first run left, only prints the skip message.
\<close>

theorem existing_folder_is_skipped_witness:
  "issue_path sample_issue = Inr (JStr ''DR-7'', ''exports/DR-007-Fix_bugfix'')
   \<and> os_path_isdir sample_folder_world ''exports/DR-007-Fix_bugfix''
   \<and> os_path_exists sample_folder_world ''exports/DR-007-Fix_bugfix''
   \<and> process_issues sample_tracker ''Bearer t'' False [sample_issue] sample_folder_world
       = (None, emit (Printed ''Skipping exports/DR-007-Fix_bugfix as it already exists.'')
                  sample_folder_world)
   \<and> fst (get_issues sample_tracker ''t'' ''Data requests'' False empty_world) = None
   \<and> get_issues sample_tracker ''t'' ''Data requests'' False
         (snd (get_issues sample_tracker ''t'' ''Data requests'' False empty_world))
       = (None, (snd (get_issues sample_tracker ''t'' ''Data requests'' False empty_world))
            \<lparr>trace := trace (snd (get_issues sample_tracker ''t'' ''Data requests'' False
                                    empty_world))
               @ [Requested (issues_request ''t'' ''Data requests''),
                  Printed ''Skipping exports/DR-007-Fix_bugfix as it already exists.'']\<rparr>)"
proof -
  let ?path = "''exports/DR-007-Fix_bugfix''"
  let ?G = "get_issues sample_tracker ''t'' ''Data requests'' False empty_world"
  let ?resp = "\<lparr>resp_status_code = 200, resp_text = ''[...]'', resp_content = ''[...]'',
                resp_json = Inr [sample_issue]\<rparr>"
  have i: "issue_path sample_issue = Inr (JStr ''DR-7'', ?path)"
    by code_simp
  have d: "os_path_isdir sample_folder_world ?path"
    by code_simp
  have x: "os_path_exists sample_folder_world ?path"
    by code_simp
  have sm: "skip_message ?path = ''Skipping exports/DR-007-Fix_bugfix as it already exists.''"
    by (simp add: skip_message_def)
  have t: "sample_tracker (issues_request ''t'' ''Data requests'') = Inr ?resp"
    by (simp add: sample_tracker_def issues_request_def)
  have f: "fst ?G = None"
    by code_simp
  then have g: "?G = (None, snd ?G)"
    by (simp add: prod_eq_iff)
  note th = existing_folder_is_skipped [where issue = sample_issue and issue_id = "JStr ''DR-7''"
      and path = ?path and w = sample_folder_world and tracker = sample_tracker
      and authorization = "''Bearer t''" and rest = "[]" and permanent_token = "''t''"
      and project_id = "''Data requests''" and response = ?resp and issues = "[sample_issue]"
      and ?w0.0 = empty_world and ?w1.0 = "snd ?G"]
  from th i x
  have "process_issues sample_tracker ''Bearer t'' False [sample_issue] sample_folder_world
      = process_issues sample_tracker ''Bearer t'' False []
          (emit (Printed (skip_message ?path)) sample_folder_world)"
    by blast
  then have a: "process_issues sample_tracker ''Bearer t'' False [sample_issue] sample_folder_world
       = (None, emit (Printed ''Skipping exports/DR-007-Fix_bugfix as it already exists.'')
                  sample_folder_world)"
    unfolding sm by simp
  from th t g obtain paths
    where l: "list_all2 (\<lambda>issue path. \<exists>issue_id. issue_path issue = Inr (issue_id, path))
                [sample_issue] paths"
      and r: "get_issues sample_tracker ''t'' ''Data requests'' False (snd ?G)
            = (None, (snd ?G)\<lparr>trace := trace (snd ?G) @
                 Requested (issues_request ''t'' ''Data requests'')
                 # map (\<lambda>path. Printed (skip_message path)) paths\<rparr>)"
    by auto
  from l i have "paths = [?path]"
    by (auto simp: list_all2_Cons1)
  with r sm have b: "get_issues sample_tracker ''t'' ''Data requests'' False (snd ?G)
       = (None, (snd ?G)\<lparr>trace := trace (snd ?G)
               @ [Requested (issues_request ''t'' ''Data requests''),
                  Printed ''Skipping exports/DR-007-Fix_bugfix as it already exists.'']\<rparr>)"
    by simp
  from i d x a f b show ?thesis
    by blast
qed



text \<open>
  What \<^verbatim>\<open>issue.get('description', 'No description')\<close> writes when the key is missing,
  and when it holds a string.
\<close>

lemma description_text_cases:
  "description issue = None \<Longrightarrow> description_text issue = ''No description''"
  "description issue = Some (JStr d) \<Longrightarrow> description_text issue = d"
  by (simp_all add: description_text_def)

text \<open>
  Claim C6 says that the content file holds, after the heading, the description of the
  issue, or the placeholder \<^verbatim>\<open>No description\<close> when the issue has none. The default of
  \<^verbatim>\<open>issue.get\<close> applies only when the key \<^verbatim>\<open>description\<close> is missing, though. An
  issue without a description arrives with the key present and the value \<^verbatim>\<open>null\<close>; for
  it the text written after the heading is \<^verbatim>\<open>None\<close>, neither a description nor the
  placeholder.
\<close>

theorem null_description_is_written_as_None:
  "description_text (issue\<lparr>description := Some JNull\<rparr>) = ''None''
   \<and> fst (write_content (JStr ''DR-7'')
            (sample_issue\<lparr>description := Some JNull, comments := None\<rparr>))
       = ''# DR-7 - Fix: bug/fix'' @ newline @ newline @ ''None'' @ newline @ newline
           @ newline @ ''# Comments''"
proof
  show "description_text (issue\<lparr>description := Some JNull\<rparr>) = ''None''"
    by (simp add: description_text_def)
  show "fst (write_content (JStr ''DR-7'')
            (sample_issue\<lparr>description := Some JNull, comments := None\<rparr>))
       = ''# DR-7 - Fix: bug/fix'' @ newline @ newline @ ''None'' @ newline @ newline
           @ newline @ ''# Comments''"
    by code_simp
qed

end
